theory Spec2Isabelle
  imports Main
begin

section \<open>JavaScript values as the agent sees them\<close>

text \<open>
  The main-world script receives arbitrary page values (the arguments of
  \<^verbatim>\<open>console.error\<close>, thrown values, rejection reasons). A value is a primitive or a
  reference into a store of objects, so that cyclic \<^verbatim>\<open>cause\<close>/\<^verbatim>\<open>error\<close>/\<^verbatim>\<open>reason\<close>
  chains are values like any other. Numbers are restricted to integers; symbols and
  bigints are left out.

  An object carries what the script asks of it: the three \<^verbatim>\<open>instanceof\<close> tests, whether
  \<^verbatim>\<open>typeof\<close> is \<^verbatim>\<open>"function"\<close>, its readable data properties (own and inherited), the
  outcome of \<^verbatim>\<open>String(o)\<close> (\<open>None\<close> when the coercion throws, as it does for an object
  with a null prototype) and the outcome of \<^verbatim>\<open>JSON.stringify(o)\<close>. Property getters
  that run page code are outside the model.
\<close>

type_synonym addr = nat

datatype jsval = JUndefined | JNull | JBool bool | JNum int | JStr string | JRef addr

datatype json_result = JsonThrows | JsonUndefined | JsonText string

datatype js_error = TypeError

record jsobj =
  inst_Error :: bool
  inst_ErrorEvent :: bool
  inst_DOMException :: bool
  callable :: bool
  props :: "(string \<times> jsval) list"
  toStr :: "string option"
  toJSON :: json_result

type_synonym heap = "addr \<Rightarrow> jsobj"

fun truthy :: "jsval \<Rightarrow> bool" where
  "truthy JUndefined = False"
| "truthy JNull = False"
| "truthy (JBool b) = b"
| "truthy (JNum n) = (n \<noteq> 0)"
| "truthy (JStr s) = (s \<noteq> [])"
| "truthy (JRef a) = True"

text \<open>\<^verbatim>\<open>a || b\<close>\<close>

definition jor :: "jsval \<Rightarrow> jsval \<Rightarrow> jsval" where
  "jor a b = (if truthy a then a else b)"

text \<open>
  \<^verbatim>\<open>v.k\<close> for a value that is neither null nor undefined, and \<^verbatim>\<open>v?.k\<close> for any value:
  the properties the script reads (\<^verbatim>\<open>name\<close>, \<^verbatim>\<open>message\<close>, \<^verbatim>\<open>stack\<close>, ...) are
  undefined on primitives.
\<close>

fun getp :: "heap \<Rightarrow> jsval \<Rightarrow> string \<Rightarrow> jsval" where
  "getp h (JRef a) k = (case map_of (props (h a)) k of Some v \<Rightarrow> v | None \<Rightarrow> JUndefined)"
| "getp h v k = JUndefined"

fun instanceOf :: "(jsobj \<Rightarrow> bool) \<Rightarrow> heap \<Rightarrow> jsval \<Rightarrow> bool" where
  "instanceOf cls h (JRef a) = cls (h a)"
| "instanceOf cls h v = False"

fun js_typeof :: "heap \<Rightarrow> jsval \<Rightarrow> string" where
  "js_typeof h JUndefined = ''undefined''"
| "js_typeof h JNull = ''object''"
| "js_typeof h (JBool b) = ''boolean''"
| "js_typeof h (JNum n) = ''number''"
| "js_typeof h (JStr s) = ''string''"
| "js_typeof h (JRef a) = (if callable (h a) then ''function'' else ''object'')"

definition digit_char :: "nat \<Rightarrow> char" where
  "digit_char d = ''0123456789'' ! d"

function decimal :: "nat \<Rightarrow> string" where
  "decimal n = (if n < 10 then [digit_char n] else decimal (n div 10) @ [digit_char (n mod 10)])"
  by pat_completeness auto
termination
  by (relation "measure id") auto

definition show_int :: "int \<Rightarrow> string" where
  "show_int i = (if i < 0 then CHR ''-'' # decimal (nat (- i)) else decimal (nat i))"

text \<open>\<^verbatim>\<open>String(v)\<close>, also the coercion of a template literal.\<close>

fun js_String :: "heap \<Rightarrow> jsval \<Rightarrow> js_error + string" where
  "js_String h JUndefined = Inr ''undefined''"
| "js_String h JNull = Inr ''null''"
| "js_String h (JBool b) = Inr (if b then ''true'' else ''false'')"
| "js_String h (JNum n) = Inr (show_int n)"
| "js_String h (JStr s) = Inr s"
| "js_String h (JRef a) = (case toStr (h a) of None \<Rightarrow> Inl TypeError | Some s \<Rightarrow> Inr s)"

text \<open>\<^verbatim>\<open>JSON.stringify(v)\<close>; the script calls it on objects only.\<close>

fun json_stringify :: "heap \<Rightarrow> jsval \<Rightarrow> json_result" where
  "json_stringify h (JRef a) = toJSON (h a)"
| "json_stringify h v = JsonUndefined"

section \<open>Error extraction\<close>

record ErrorInfo =
  ei_type :: jsval
  ei_message :: jsval
  ei_stack :: jsval
  ei_cause :: jsval
  ei_code :: jsval
  ei_fileName :: jsval
  ei_lineNumber :: jsval
  ei_columnNumber :: jsval
  ei_componentStack :: jsval
  ei_filename :: jsval
  ei_lineno :: jsval
  ei_colno :: jsval
  ei_name :: jsval

text \<open>The object literal \<^verbatim>\<open>{ message: m, type: t }\<close>: every other field is undefined.\<close>

definition info :: "jsval \<Rightarrow> jsval \<Rightarrow> ErrorInfo" where
  "info m t =
     \<lparr>ei_type = t, ei_message = m, ei_stack = JUndefined, ei_cause = JUndefined,
      ei_code = JUndefined, ei_fileName = JUndefined, ei_lineNumber = JUndefined,
      ei_columnNumber = JUndefined, ei_componentStack = JUndefined,
      ei_filename = JUndefined, ei_lineno = JUndefined, ei_colno = JUndefined,
      ei_name = JUndefined\<rparr>"

function extractErrorInfo :: "heap \<Rightarrow> jsval \<Rightarrow> nat \<Rightarrow> js_error + ErrorInfo" where
  "extractErrorInfo h arg depth =
    (if depth > 3 then Inr (info (JStr ''[Max depth reached]'') (JStr ''unknown''))
     else if arg = JNull then Inr (info (JStr ''null'') (JStr ''null''))
     else if arg = JUndefined then Inr (info (JStr ''undefined'') (JStr ''undefined''))
     else if instanceOf inst_Error h arg then
       (case (if truthy (getp h arg ''cause'')
              then (case extractErrorInfo h (getp h arg ''cause'') (depth + 1) of
                      Inl e \<Rightarrow> Inl e | Inr c \<Rightarrow> Inr (ei_message c))
              else Inr JUndefined) of
          Inl e \<Rightarrow> Inl e
        | Inr cause \<Rightarrow>
            Inr ((info (jor (getp h arg ''message'') (JStr ''No message''))
                       (jor (getp h arg ''name'') (JStr ''Error'')))
                 \<lparr>ei_stack := jor (getp h arg ''stack'') (JStr ''''),
                  ei_cause := cause,
                  ei_code := getp h arg ''code'',
                  ei_fileName := getp h arg ''fileName'',
                  ei_lineNumber := getp h arg ''lineNumber'',
                  ei_columnNumber := getp h arg ''columnNumber'',
                  ei_componentStack := getp h arg ''componentStack''\<rparr>))
     else if instanceOf inst_ErrorEvent h arg then
       Inr ((info (jor (getp h arg ''message'')
                     (jor (getp h (getp h arg ''error'') ''message'') (JStr ''ErrorEvent'')))
                  (jor (getp h (getp h arg ''error'') ''name'') (JStr ''ErrorEvent'')))
            \<lparr>ei_stack := jor (getp h (getp h arg ''error'') ''stack'') (JStr ''''),
             ei_filename := getp h arg ''filename'',
             ei_lineno := getp h arg ''lineno'',
             ei_colno := getp h arg ''colno''\<rparr>)
     else if instanceOf inst_DOMException h arg then
       Inr ((info (getp h arg ''message'') (JStr ''DOMException''))
            \<lparr>ei_name := getp h arg ''name'', ei_code := getp h arg ''code''\<rparr>)
     else if js_typeof h arg = ''object'' \<and> arg \<noteq> JNull then
       (if truthy (getp h arg ''componentStack'') then
          (case (if truthy (getp h arg ''message'') then Inr (getp h arg ''message'')
                 else (case js_String h arg of Inl e \<Rightarrow> Inl e | Inr s \<Rightarrow> Inr (JStr s))) of
             Inl e \<Rightarrow> Inl e
           | Inr m \<Rightarrow>
               Inr ((info m (JStr ''ReactError''))
                    \<lparr>ei_componentStack := getp h arg ''componentStack'',
                     ei_stack := jor (getp h (getp h arg ''error'') ''stack'')
                                   (jor (getp h arg ''stack'') (JStr ''''))\<rparr>))
        else if getp h arg ''message'' \<noteq> JUndefined then
          (case js_String h (getp h arg ''message'') of
             Inl e \<Rightarrow> Inl e
           | Inr s \<Rightarrow>
               Inr ((info (JStr s)
                       (jor (getp h arg ''name'') (jor (getp h arg ''type'') (JStr ''ObjectError''))))
                    \<lparr>ei_stack := jor (getp h arg ''stack'') (JStr ''''),
                     ei_code := getp h arg ''code''\<rparr>))
        else if truthy (getp h arg ''error'') then
          extractErrorInfo h (getp h arg ''error'') (depth + 1)
        else if truthy (getp h arg ''reason'') then
          extractErrorInfo h (getp h arg ''reason'') (depth + 1)
        else
          (case (case json_stringify h arg of
                   JsonText str \<Rightarrow>
                     if str \<noteq> [] \<and> str \<noteq> ''{}''
                     then Some (info (JStr (take 2000 str)) (JStr ''Object''))
                     else None
                 | JsonUndefined \<Rightarrow> None
                 | JsonThrows \<Rightarrow> None) of
             Some r \<Rightarrow> Inr r
           | None \<Rightarrow>
               (case js_String h arg of
                  Inl e \<Rightarrow> Inl e
                | Inr s \<Rightarrow>
                    Inr (info (JStr s)
                          (jor (getp h (getp h arg ''constructor'') ''name'') (JStr ''Object'')))))
       )
     else
       (case js_String h arg of
          Inl e \<Rightarrow> Inl e
        | Inr s \<Rightarrow> Inr (info (JStr s) (JStr (js_typeof h arg)))))"
  by pat_completeness auto
termination
  by (relation "measure (\<lambda>(h, arg, depth). 4 - depth)") auto

declare extractErrorInfo.simps [simp del]
declare decimal.simps [simp del]

text \<open>
  \<^verbatim>\<open>formatArgs\<close>: each argument is normalised again; an argument with a stack is
  rendered by the template literal, any other by its message, and \<^verbatim>\<open>join(" ")\<close>
  coerces the pieces (null and undefined become the empty string).
\<close>

definition formatArg :: "heap \<Rightarrow> jsval \<Rightarrow> js_error + jsval" where
  "formatArg h arg =
     (case extractErrorInfo h arg 0 of
        Inl e \<Rightarrow> Inl e
      | Inr i \<Rightarrow>
          if truthy (ei_stack i) then
            (case js_String h (ei_type i) of
               Inl e \<Rightarrow> Inl e
             | Inr t \<Rightarrow>
                 (case js_String h (ei_message i) of
                    Inl e \<Rightarrow> Inl e
                  | Inr m \<Rightarrow>
                      (case js_String h (ei_stack i) of
                         Inl e \<Rightarrow> Inl e
                       | Inr s \<Rightarrow> Inr (JStr (t @ '': '' @ m @ [CHR 0x0A] @ s)))))
          else Inr (ei_message i))"

text \<open>\<^verbatim>\<open>args.map(f)\<close> for an \<open>f\<close> that may throw: the first exception ends the call.\<close>

fun map_throwing :: "('a \<Rightarrow> js_error + 'b) \<Rightarrow> 'a list \<Rightarrow> js_error + 'b list" where
  "map_throwing f [] = Inr []"
| "map_throwing f (x # xs) =
     (case f x of
        Inl e \<Rightarrow> Inl e
      | Inr y \<Rightarrow> (case map_throwing f xs of Inl e \<Rightarrow> Inl e | Inr ys \<Rightarrow> Inr (y # ys)))"

definition join_piece :: "heap \<Rightarrow> jsval \<Rightarrow> js_error + string" where
  "join_piece h v = (if v = JUndefined \<or> v = JNull then Inr [] else js_String h v)"

fun intersperse :: "string \<Rightarrow> string list \<Rightarrow> string" where
  "intersperse sep [] = []"
| "intersperse sep [x] = x"
| "intersperse sep (x # y # ys) = x @ sep @ intersperse sep (y # ys)"

definition js_join :: "heap \<Rightarrow> string \<Rightarrow> jsval list \<Rightarrow> js_error + string" where
  "js_join h sep vs =
     (case map_throwing (join_piece h) vs of Inl e \<Rightarrow> Inl e | Inr ps \<Rightarrow> Inr (intersperse sep ps))"

definition formatArgs :: "heap \<Rightarrow> jsval list \<Rightarrow> js_error + string" where
  "formatArgs h args =
     (case map_throwing (formatArg h) args of Inl e \<Rightarrow> Inl e | Inr vs \<Rightarrow> js_join h '' '' vs)"

section \<open>Strings and the crash patterns\<close>

text \<open>
  Strings are lists of 8-bit characters. The patterns are ASCII and carry the \<^verbatim>\<open>i\<close> flag
  without the \<^verbatim>\<open>u\<close> flag, so only the letters A to Z fold onto them.
\<close>

definition to_lower :: "char \<Rightarrow> char" where
  "to_lower c =
     (case map_of (zip ''ABCDEFGHIJKLMNOPQRSTUVWXYZ'' ''abcdefghijklmnopqrstuvwxyz'') c of
        Some l \<Rightarrow> l
      | None \<Rightarrow> c)"

fun starts_with :: "string \<Rightarrow> string \<Rightarrow> bool" where
  "starts_with cs [] = True"
| "starts_with [] (p # ps) = False"
| "starts_with (c # cs) (p # ps) = (c = p \<and> starts_with cs ps)"

text \<open>\<^verbatim>\<open>s.includes(pat)\<close>\<close>

fun js_includes :: "string \<Rightarrow> string \<Rightarrow> bool" where
  "js_includes [] pat = (pat = [])"
| "js_includes (c # cs) pat = (starts_with (c # cs) pat \<or> js_includes cs pat)"

definition ends_with :: "string \<Rightarrow> string \<Rightarrow> bool" where
  "ends_with s pat = starts_with (rev s) (rev pat)"

text \<open>\<^verbatim>\<open>/pat/i.test(s)\<close> and \<^verbatim>\<open>/pat$/i.test(s)\<close> for a literal lower-case \<open>pat\<close>.\<close>

definition re_contains_i :: "string \<Rightarrow> string \<Rightarrow> bool" where
  "re_contains_i pat s = js_includes (map to_lower s) pat"

definition re_ends_i :: "string \<Rightarrow> string \<Rightarrow> bool" where
  "re_ends_i pat s = ends_with (map to_lower s) pat"

definition line_terminator :: "char \<Rightarrow> bool" where
  "line_terminator c = (c = CHR 0x0A \<or> c = CHR 0x0D)"

text \<open>\<^verbatim>\<open>.*pat\<close> matched at the head of the string: the dot skips no line terminator.\<close>

fun dot_star_then :: "string \<Rightarrow> string \<Rightarrow> bool" where
  "dot_star_then pat [] = (pat = [])"
| "dot_star_then pat (c # cs) =
     (starts_with (c # cs) pat \<or> (\<not> line_terminator c \<and> dot_star_then pat cs))"

fun chunk_then_failed :: "string \<Rightarrow> bool" where
  "chunk_then_failed [] = False"
| "chunk_then_failed (c # cs) =
     ((starts_with (c # cs) ''chunk'' \<and> dot_star_then ''failed'' (drop 5 (c # cs)))
      \<or> chunk_then_failed cs)"

text \<open>\<^verbatim>\<open>/chunk.*failed/i.test(s)\<close>\<close>

definition re_chunk_failed_i :: "string \<Rightarrow> bool" where
  "re_chunk_failed_i s = chunk_then_failed (map to_lower s)"

definition CRASH_ERROR_PATTERNS :: "(string \<Rightarrow> bool) list" where
  "CRASH_ERROR_PATTERNS =
     [re_ends_i ''is not defined'',
      re_ends_i ''is not a function'',
      re_contains_i ''cannot read propert'',
      re_contains_i ''cannot set propert'',
      re_contains_i ''undefined is not'',
      re_contains_i ''null is not'',
      re_contains_i ''maximum call stack'',
      re_contains_i ''out of memory'',
      re_chunk_failed_i,
      re_contains_i ''loading chunk'',
      re_contains_i ''dynamically imported module'',
      re_contains_i ''failed to fetch'']"

definition CRASH_ERROR_TYPES :: "string list" where
  "CRASH_ERROR_TYPES = [''ReferenceError'', ''TypeError'', ''ChunkLoadError'', ''SyntaxError'']"

definition isCriticalError :: "jsval \<Rightarrow> string \<Rightarrow> bool" where
  "isCriticalError errorType message =
     (errorType \<in> set (map JStr CRASH_ERROR_TYPES)
      \<or> list_ex (\<lambda>pattern. pattern message) CRASH_ERROR_PATTERNS)"

text \<open>\<^verbatim>\<open>xs.slice(-n)\<close>, and \<^verbatim>\<open>xs.push(x); if (xs.length > cap) xs.shift()\<close>.\<close>

definition slice_last :: "nat \<Rightarrow> 'a list \<Rightarrow> 'a list" where
  "slice_last n xs = drop (length xs - n) xs"

definition push_capped :: "nat \<Rightarrow> 'a \<Rightarrow> 'a list \<Rightarrow> 'a list" where
  "push_capped cap x xs = (let ys = xs @ [x] in if length ys > cap then tl ys else ys)"

section \<open>Captured entries and the agent's state\<close>

text \<open>
  An entry of the console and page channels. \<open>e_message\<close> is a string, as
  \<^verbatim>\<open>formatArgs\<close> builds it in the console overrides and as the normalised error of a
  thrown value ordinarily has it; entries whose message is of another type are outside
  the model. \<open>e_errorType\<close>, \<open>e_stack\<close> and \<open>e_componentStack\<close> are copied from the
  normalised error and may be any value.
\<close>

record entry =
  e_type :: string
  e_errorType :: jsval
  e_message :: string
  e_stack :: jsval
  e_componentStack :: jsval
  e_filename :: jsval
  e_lineno :: jsval
  e_colno :: jsval
  e_timestamp :: string
  e_url :: string

text \<open>\<^verbatim>\<open>{ ...entry, capturedAt: Date.now() }\<close>\<close>

record critical =
  c_entry :: entry
  capturedAt :: int

datatype json_details = NoDetails | DetailsNull | DetailsParsed string

record net_entry =
  n_type :: string
  n_method :: string
  n_url :: string
  n_status :: nat
  n_statusText :: "string option"
  n_duration :: int
  n_requestBody :: "string option"
  n_responseBody :: "string option"
  n_isError :: bool
  n_timestamp :: string
  n_error :: jsval
  n_errorType :: jsval
  n_errorStack :: jsval
  n_errorDetails :: json_details

record primary_error =
  pe_type :: jsval
  pe_message :: string
  pe_stack :: jsval
  pe_filename :: jsval
  pe_lineno :: jsval
  pe_colno :: jsval
  pe_componentStack :: jsval

text \<open>
  The payload of a \<^verbatim>\<open>crash_detected\<close> message. The error-based detector sets
  \<open>c_primaryError\<close> and \<open>c_recentCriticalErrors\<close>; the DOM-based one spreads the scan
  result instead (\<open>c_text\<close>, \<open>c_html\<close>).
\<close>

record crash_event =
  c_type :: string
  c_detected :: bool
  c_reason :: string
  c_detectionMethod :: string
  c_primaryError :: "primary_error option"
  c_recentCriticalErrors :: "critical list option"
  c_text :: "string option"
  c_html :: "string option"
  c_recentConsoleErrors :: "entry list"
  c_recentPageErrors :: "entry list"
  c_recentApiErrors :: "net_entry list"
  c_recentApiRequests :: "net_entry list"
  c_timestamp :: string
  c_url :: string
  c_sessionDuration :: int

datatype payload = PEntry entry | PNet net_entry | PCrash crash_event

text \<open>One \<^verbatim>\<open>window.postMessage\<close> call of \<^verbatim>\<open>sendToContentScript\<close>.\<close>

record post =
  p_source :: string
  p_type :: string
  p_data :: payload
  p_sessionId :: string
  p_pageUrl :: string

text \<open>
  What a handler reads from the page while it runs: the clock (\<^verbatim>\<open>Date.now()\<close>, one
  reading per handler run), its ISO rendering, \<^verbatim>\<open>location.href\<close>, the stack that
  \<^verbatim>\<open>getCurrentStack()\<close> returns, and whether \<^verbatim>\<open>JSON.parse\<close> accepts a text.
\<close>

record env =
  now :: int
  isoNow :: string
  href :: string
  currentStack :: string
  json_parses :: "string \<Rightarrow> bool"

text \<open>
  The script's mutable state: \<^verbatim>\<open>localErrors\<close>, the detector's window and latch, the
  last DOM reason, the pending \<^verbatim>\<open>setTimeout\<close> callbacks (by due time), the messages
  posted so far and the calls forwarded to the saved console functions.
\<close>

record agent =
  SESSION_ID :: string
  START_TIME :: int
  le_page :: "entry list"
  le_console :: "entry list"
  le_api :: "net_entry list"
  le_apiRequests :: "net_entry list"
  recentCriticalErrors :: "critical list"
  crashTriggered :: bool
  lastDOMCrashReason :: "string option"
  timers :: "int list"
  posted :: "post list"
  native_error :: "jsval list list"
  native_warn :: "jsval list list"
  native_assert :: "jsval list list"

definition init :: "string \<Rightarrow> int \<Rightarrow> agent" where
  "init sid start =
     \<lparr>SESSION_ID = sid, START_TIME = start, le_page = [], le_console = [], le_api = [],
      le_apiRequests = [], recentCriticalErrors = [], crashTriggered = False,
      lastDOMCrashReason = None, timers = [], posted = [], native_error = [],
      native_warn = [], native_assert = []\<rparr>"

text \<open>
  A handler either returns or throws; what it has written to the state by then stays.
\<close>

datatype completion = Done agent | Threw js_error agent

fun state_of :: "completion \<Rightarrow> agent" where
  "state_of (Done st) = st"
| "state_of (Threw e st) = st"

text \<open>
  \<^verbatim>\<open>sendToContentScript\<close>: the call is recorded; a failing \<^verbatim>\<open>postMessage\<close> is caught
  there and changes nothing else.
\<close>

definition sendToContentScript :: "env \<Rightarrow> string \<Rightarrow> payload \<Rightarrow> agent \<Rightarrow> agent" where
  "sendToContentScript ev ty d st =
     st\<lparr>posted := posted st @
          [\<lparr>p_source = ''L2_AGENT_MAIN_WORLD'', p_type = ty, p_data = d,
            p_sessionId = SESSION_ID st, p_pageUrl = href ev\<rparr>]\<rparr>"

section \<open>Error-based crash detection\<close>

definition triggerCrashFromError :: "heap \<Rightarrow> env \<Rightarrow> entry \<Rightarrow> agent \<Rightarrow> completion" where
  "triggerCrashFromError h ev primaryError st0 =
     (let st = st0\<lparr>crashTriggered := True\<rparr> in
      case js_String h (e_errorType primaryError) of
        Inl e \<Rightarrow> Threw e st
      | Inr ty \<Rightarrow>
          (let st1 = sendToContentScript ev ''crash_detected''
                 (PCrash
                   \<lparr>c_type = ''crash'',
                    c_detected = True,
                    c_reason = ''Error: '' @ ty @ '' - '' @ take 100 (e_message primaryError),
                    c_detectionMethod = ''error_based'',
                    c_primaryError = Some
                      \<lparr>pe_type = e_errorType primaryError,
                       pe_message = e_message primaryError,
                       pe_stack = e_stack primaryError,
                       pe_filename = e_filename primaryError,
                       pe_lineno = e_lineno primaryError,
                       pe_colno = e_colno primaryError,
                       pe_componentStack = e_componentStack primaryError\<rparr>,
                    c_recentCriticalErrors = Some (slice_last 10 (recentCriticalErrors st)),
                    c_text = None,
                    c_html = None,
                    c_recentConsoleErrors = slice_last 30 (le_console st),
                    c_recentPageErrors = slice_last 20 (le_page st),
                    c_recentApiErrors = slice_last 30 (le_api st),
                    c_recentApiRequests = slice_last 50 (le_apiRequests st),
                    c_timestamp = isoNow ev,
                    c_url = href ev,
                    c_sessionDuration = now ev - START_TIME st\<rparr>) st
           in Done (st1\<lparr>timers := timers st1 @ [now ev + 10000]\<rparr>)))"

definition checkForErrorBasedCrash :: "heap \<Rightarrow> env \<Rightarrow> entry \<Rightarrow> agent \<Rightarrow> completion" where
  "checkForErrorBasedCrash h ev e st0 =
     (if isCriticalError (e_errorType e) (e_message e) then
        (let cutoff = now ev - 60000;
             st = st0\<lparr>recentCriticalErrors :=
                        filter (\<lambda>c. capturedAt c > cutoff)
                          (recentCriticalErrors st0 @ [\<lparr>c_entry = e, capturedAt = now ev\<rparr>])\<rparr>;
             shouldTriggerCrash =
               (e_errorType e = JStr ''ReferenceError''
                \<or> js_includes (e_message e) ''is not defined''
                \<or> truthy (e_componentStack e)
                \<or> length (recentCriticalErrors st) \<ge> 3)
         in if shouldTriggerCrash \<and> \<not> crashTriggered st
            then triggerCrashFromError h ev e st
            else Done st)
      else Done st0)"

text \<open>The callback that \<^verbatim>\<open>triggerCrashFromError\<close> schedules.\<close>

definition cooldownReset :: "agent \<Rightarrow> agent" where
  "cooldownReset st = st\<lparr>crashTriggered := False, recentCriticalErrors := []\<rparr>"

text \<open>
  The event loop before a handler runs at time \<open>t\<close>: every callback that is due has run.
\<close>

definition runTimers :: "int \<Rightarrow> agent \<Rightarrow> agent" where
  "runTimers t st =
     (if list_ex (\<lambda>due. due \<le> t) (timers st)
      then (cooldownReset st)\<lparr>timers := filter (\<lambda>due. \<not> due \<le> t) (timers st)\<rparr>
      else st)"

text \<open>
  A run of the detector over entries, each with the page readings at its arrival. An
  exception reaches the caller of the handler; the next event finds the state it left.
\<close>

fun feed :: "heap \<Rightarrow> (env \<times> entry) list \<Rightarrow> agent \<Rightarrow> agent" where
  "feed h [] st = st"
| "feed h ((ev, e) # rest) st =
     feed h rest (state_of (checkForErrorBasedCrash h ev e (runTimers (now ev) st)))"

definition is_crash :: "post \<Rightarrow> bool" where
  "is_crash p = (p_type p = ''crash_detected'')"

definition crashEvents :: "agent \<Rightarrow> crash_event list" where
  "crashEvents st =
     concat (map (\<lambda>p. case p_data p of PCrash c \<Rightarrow> [c] | PEntry x \<Rightarrow> [] | PNet x \<Rightarrow> [])
                 (filter is_crash (posted st)))"

text \<open>
  The \<^verbatim>\<open>error\<close> and \<^verbatim>\<open>unhandledrejection\<close> listeners, from the entry they have
  built: the push into \<^verbatim>\<open>localErrors.page\<close> with its shift, the message (of type
  \<^verbatim>\<open>page_error\<close> or \<^verbatim>\<open>promise_rejection\<close>) and the crash check.
\<close>

definition record_page_entry :: "heap \<Rightarrow> env \<Rightarrow> string \<Rightarrow> entry \<Rightarrow> agent \<Rightarrow> completion" where
  "record_page_entry h ev ty e st =
     checkForErrorBasedCrash h ev e
       (sendToContentScript ev ty (PEntry e) (st\<lparr>le_page := push_capped 50 e (le_page st)\<rparr>))"

section \<open>Console overrides\<close>

definition console_entry :: "env \<Rightarrow> string \<Rightarrow> jsval \<Rightarrow> string \<Rightarrow> jsval \<Rightarrow> jsval \<Rightarrow> entry" where
  "console_entry ev ty errorType message stack componentStack =
     \<lparr>e_type = ty, e_errorType = errorType, e_message = message, e_stack = stack,
      e_componentStack = componentStack, e_filename = JUndefined, e_lineno = JUndefined,
      e_colno = JUndefined, e_timestamp = isoNow ev, e_url = href ev\<rparr>"

text \<open>
  \<^verbatim>\<open>console.error = function (...args)\<close>. The last statement forwards the arguments
  to the saved \<^verbatim>\<open>console.error\<close>; an exception before it ends the call.
\<close>

definition console_error :: "heap \<Rightarrow> env \<Rightarrow> jsval list \<Rightarrow> agent \<Rightarrow> completion" where
  "console_error h ev args st =
     (case map_throwing (\<lambda>arg. extractErrorInfo h arg 0) args of
        Inl e \<Rightarrow> Threw e st
      | Inr errorInfos \<Rightarrow>
          (let primaryError =
                 (case find (\<lambda>i. truthy (ei_stack i)) errorInfos of
                    Some i \<Rightarrow> i
                  | None \<Rightarrow> (case errorInfos of i # is \<Rightarrow> i | [] \<Rightarrow> info JUndefined JUndefined))
           in case formatArgs h args of
                Inl e \<Rightarrow> Threw e st
              | Inr message \<Rightarrow>
                  (let e = console_entry ev ''console.error''
                             (jor (ei_type primaryError) (JStr ''console.error''))
                             message
                             (jor (ei_stack primaryError) (JStr (currentStack ev)))
                             (ei_componentStack primaryError);
                       st1 = st\<lparr>le_console := push_capped 100 e (le_console st)\<rparr>;
                       st2 = sendToContentScript ev ''console_error'' (PEntry e) st1
                   in case checkForErrorBasedCrash h ev e st2 of
                        Threw x st3 \<Rightarrow> Threw x st3
                      | Done st3 \<Rightarrow> Done (st3\<lparr>native_error := native_error st3 @ [args]\<rparr>))))"

definition console_warn :: "heap \<Rightarrow> env \<Rightarrow> jsval list \<Rightarrow> agent \<Rightarrow> completion" where
  "console_warn h ev args st =
     (case formatArgs h args of
        Inl e \<Rightarrow> Threw e st
      | Inr message \<Rightarrow>
          (let e = console_entry ev ''console.warn'' (JStr ''Warning'') message
                     (JStr (currentStack ev)) JUndefined;
               st1 = st\<lparr>le_console := push_capped 100 e (le_console st)\<rparr>;
               st2 = sendToContentScript ev ''console_warn'' (PEntry e) st1
           in Done (st2\<lparr>native_warn := native_warn st2 @ [args]\<rparr>)))"

text \<open>
  \<^verbatim>\<open>console.assert = function (condition, ...args)\<close>: the entry is pushed and the
  buffer is not shifted.
\<close>

definition console_assert :: "heap \<Rightarrow> env \<Rightarrow> jsval \<Rightarrow> jsval list \<Rightarrow> agent \<Rightarrow> completion" where
  "console_assert h ev condition args st =
     (if \<not> truthy condition then
        (case (if length args > 0 then formatArgs h args else Inr ''Assertion failed'') of
           Inl e \<Rightarrow> Threw e st
         | Inr message \<Rightarrow>
             (let e = console_entry ev ''console.assert'' (JStr ''AssertionError'') message
                        (JStr (currentStack ev)) JUndefined;
                  st1 = st\<lparr>le_console := le_console st @ [e]\<rparr>;
                  st2 = sendToContentScript ev ''console_error'' (PEntry e) st1
              in Done (st2\<lparr>native_assert := native_assert st2 @ [condition # args]\<rparr>)))
      else Done (st\<lparr>native_assert := native_assert st @ [condition # args]\<rparr>))"

section \<open>Network interception\<close>

text \<open>
  \<open>xhr_req\<close> is the wrapper's \<^verbatim>\<open>req\<close> object once \<^verbatim>\<open>open\<close> and \<^verbatim>\<open>send\<close> have run;
  \<open>xhr_state\<close> is what the listener reads from the request (\<open>xhr_responseText\<close> is
  \<open>None\<close> when the getter throws or yields null).
\<close>

record xhr_req =
  req_method :: string
  req_url :: string
  req_start :: int
  req_body :: "string option"

record xhr_state =
  xhr_status :: nat
  xhr_statusText :: string
  xhr_responseText :: "string option"

definition net_base :: "env \<Rightarrow> string \<Rightarrow> string \<Rightarrow> string \<Rightarrow> nat \<Rightarrow> int \<Rightarrow> bool \<Rightarrow> net_entry" where
  "net_base ev ty method u status duration isError =
     \<lparr>n_type = ty, n_method = method, n_url = u, n_status = status, n_statusText = None,
      n_duration = duration, n_requestBody = None, n_responseBody = None,
      n_isError = isError, n_timestamp = isoNow ev, n_error = JUndefined,
      n_errorType = JUndefined, n_errorStack = JUndefined, n_errorDetails = NoDetails\<rparr>"

text \<open>
  The part both completion paths share: \<^verbatim>\<open>errorDetails\<close>, the push into
  \<^verbatim>\<open>localErrors.api\<close> with its shift, and the \<^verbatim>\<open>api_error\<close> message.
\<close>

definition record_api_error :: "env \<Rightarrow> net_entry \<Rightarrow> agent \<Rightarrow> agent" where
  "record_api_error ev e st =
     (let body = (case n_responseBody e of Some b \<Rightarrow> b | None \<Rightarrow> []);
          errorDetails = (if body \<noteq> [] \<and> json_parses ev body then DetailsParsed body
                          else DetailsNull);
          errorEntry = e\<lparr>n_errorDetails := errorDetails\<rparr>;
          st1 = st\<lparr>le_api := push_capped 100 errorEntry (le_api st)\<rparr>
      in sendToContentScript ev ''api_error'' (PNet errorEntry) st1)"

definition record_api_request :: "env \<Rightarrow> net_entry \<Rightarrow> agent \<Rightarrow> agent" where
  "record_api_request ev e st =
     sendToContentScript ev ''api_request'' (PNet e)
       (st\<lparr>le_apiRequests := push_capped 200 e (le_apiRequests st)\<rparr>)"

definition xhr_entry :: "env \<Rightarrow> xhr_req \<Rightarrow> xhr_state \<Rightarrow> net_entry" where
  "xhr_entry ev r x =
     (net_base ev ''xhr'' (req_method r) (req_url r) (xhr_status x) (now ev - req_start r)
        (xhr_status x = 0 \<or> xhr_status x \<ge> 400))
     \<lparr>n_statusText := Some (xhr_statusText x),
      n_requestBody := req_body r,
      n_responseBody := Some (case xhr_responseText x of Some t \<Rightarrow> take 5000 t | None \<Rightarrow> [])\<rparr>"

definition xhr_loadend :: "env \<Rightarrow> xhr_req \<Rightarrow> xhr_state \<Rightarrow> agent \<Rightarrow> agent" where
  "xhr_loadend ev r x st =
     (let e = xhr_entry ev r x;
          st1 = record_api_request ev e st
      in if n_isError e then record_api_error ev e st1 else st1)"

text \<open>The \<^verbatim>\<open>error\<close> and \<^verbatim>\<open>timeout\<close> listeners push and do not shift.\<close>

definition xhr_failure :: "string \<Rightarrow> string \<Rightarrow> env \<Rightarrow> xhr_req \<Rightarrow> agent \<Rightarrow> agent" where
  "xhr_failure ty what ev r st =
     (let e = (net_base ev ty (req_method r) (req_url r) 0 (now ev - req_start r) True)
                \<lparr>n_error := JStr what\<rparr>
      in sendToContentScript ev ''api_error'' (PNet e) (st\<lparr>le_api := le_api st @ [e]\<rparr>))"

definition xhr_error :: "env \<Rightarrow> xhr_req \<Rightarrow> agent \<Rightarrow> agent" where
  "xhr_error = xhr_failure ''xhr_network_error'' ''Network error''"

definition xhr_timeout :: "env \<Rightarrow> xhr_req \<Rightarrow> agent \<Rightarrow> agent" where
  "xhr_timeout = xhr_failure ''xhr_timeout'' ''Request timeout''"

text \<open>
  What the saved \<^verbatim>\<open>fetch\<close> gives back. \<open>r_text\<close> is the body read from the clone
  (\<open>None\<close> when cloning or reading throws). \<^verbatim>\<open>response.ok\<close> is the host's: a status
  from 200 to 299.
\<close>

record response =
  r_status :: nat
  r_statusText :: string
  r_text :: "string option"

definition response_ok :: "response \<Rightarrow> bool" where
  "response_ok r = (200 \<le> r_status r \<and> r_status r \<le> 299)"

datatype fetch_outcome = Resolved response | Rejected jsval

datatype fetch_result = Returns response | Rethrows jsval | Throws js_error

text \<open>
  The request as the wrapper's first lines derive it from \<^verbatim>\<open>input\<close> and \<^verbatim>\<open>init\<close>,
  for a string or a \<^verbatim>\<open>Request\<close>, with the clock reading at the call.
\<close>

record fetch_req =
  f_url :: string
  f_method :: string
  f_requestBody :: "string option"
  f_start :: int

definition fetch_entry :: "env \<Rightarrow> fetch_req \<Rightarrow> response \<Rightarrow> net_entry" where
  "fetch_entry ev q r =
     (net_base ev ''fetch'' (f_method q) (f_url q) (r_status r) (now ev - f_start q)
        (\<not> response_ok r))
     \<lparr>n_statusText := Some (r_statusText r),
      n_requestBody := f_requestBody q,
      n_responseBody := Some (case r_text r of Some t \<Rightarrow> take 5000 t | None \<Rightarrow> [])\<rparr>"

definition window_fetch ::
  "heap \<Rightarrow> env \<Rightarrow> fetch_req \<Rightarrow> fetch_outcome \<Rightarrow> agent \<Rightarrow> fetch_result \<times> agent" where
  "window_fetch h ev q outcome st =
     (case outcome of
        Resolved r \<Rightarrow>
          (let e = fetch_entry ev q r;
               st1 = record_api_request ev e st
           in (Returns r, if \<not> response_ok r then record_api_error ev e st1 else st1))
      | Rejected err \<Rightarrow>
          if err = JNull \<or> err = JUndefined then (Throws TypeError, st)
          else
            (let e = (net_base ev ''fetch_error'' (f_method q) (f_url q) 0
                        (now ev - f_start q) True)
                     \<lparr>n_error := getp h err ''message'',
                      n_errorType := getp h err ''name'',
                      n_errorStack := getp h err ''stack''\<rparr>;
                 st1 = sendToContentScript ev ''api_error'' (PNet e)
                         (st\<lparr>le_api := le_api st @ [e]\<rparr>)
             in case js_String h (getp h err ''message'') of
                  Inl x \<Rightarrow> (Throws x, st1)
                | Inr m \<Rightarrow> (Rethrows err, st1)))"

section \<open>DOM-based crash detection\<close>

text \<open>
  The document as \<^verbatim>\<open>detectDOMCrash\<close> reads it: what \<^verbatim>\<open>querySelector\<close> does for a
  selector, and of the element found whether \<^verbatim>\<open>offsetParent\<close> is null, its
  \<^verbatim>\<open>innerText\<close> and its \<^verbatim>\<open>outerHTML\<close>.
\<close>

record element =
  offsetParent_null :: bool
  innerText :: "string option"
  outerHTML :: "string option"

datatype query = QThrows | QNull | QElem element

type_synonym document = "string \<Rightarrow> query"

record dom_crash =
  d_reason :: string
  d_text :: string
  d_html :: string

definition CRASH_SELECTORS :: "string list" where
  "CRASH_SELECTORS =
     [''[class*=\"error-page\"]'',
      ''[class*=\"error-screen\"]'',
      ''[class*=\"crash\"]'',
      ''[class*=\"something-went-wrong\"]'',
      ''[data-testid*=\"error\"]'',
      ''.error-boundary'',
      ''[class*=\"fatal-error\"]'',
      ''[class*=\"app-error\"]'',
      ''[class*=\"server-error\"]'',
      ''[class*=\"ErrorBoundary\"]'',
      ''[role=\"alert\"][class*=\"error\"]'']"

definition js_space :: "char \<Rightarrow> bool" where
  "js_space c = (c \<in> set [CHR 0x09, CHR 0x0A, CHR 0x0B, CHR 0x0C, CHR 0x0D, CHR 0x20, CHR 0xA0])"

definition trim :: "string \<Rightarrow> string" where
  "trim s = rev (dropWhile js_space (rev (dropWhile js_space s)))"

text \<open>The \<^verbatim>\<open>for\<close> loop of \<^verbatim>\<open>detectDOMCrash\<close>; \<open>None\<close> is \<^verbatim>\<open>{ detected: false }\<close>.\<close>

fun scan :: "document \<Rightarrow> string list \<Rightarrow> dom_crash option" where
  "scan doc [] = None"
| "scan doc (sel # sels) =
     (case doc sel of
        QThrows \<Rightarrow> scan doc sels
      | QNull \<Rightarrow> scan doc sels
      | QElem el \<Rightarrow>
          if \<not> offsetParent_null el then
            (let text = (case innerText el of Some t \<Rightarrow> trim t | None \<Rightarrow> [])
             in if length text < 5 then scan doc sels
                else Some \<lparr>d_reason = ''Element: '' @ sel,
                           d_text = take 500 text,
                           d_html = (case outerHTML el of Some m \<Rightarrow> take 1000 m | None \<Rightarrow> [])\<rparr>)
          else scan doc sels)"

definition detectDOMCrash :: "document \<Rightarrow> dom_crash option" where
  "detectDOMCrash doc = scan doc CRASH_SELECTORS"

definition checkForDOMCrash :: "env \<Rightarrow> document \<Rightarrow> agent \<Rightarrow> agent" where
  "checkForDOMCrash ev doc st0 =
     (case detectDOMCrash doc of
        None \<Rightarrow> st0
      | Some crash \<Rightarrow>
          if Some (d_reason crash) \<noteq> lastDOMCrashReason st0 then
            (let st = st0\<lparr>lastDOMCrashReason := Some (d_reason crash)\<rparr>
             in if \<not> crashTriggered st then
                  sendToContentScript ev ''crash_detected''
                    (PCrash
                      \<lparr>c_type = ''crash'',
                       c_detected = True,
                       c_reason = d_reason crash,
                       c_detectionMethod = ''dom_based'',
                       c_primaryError = None,
                       c_recentCriticalErrors = None,
                       c_text = Some (d_text crash),
                       c_html = Some (d_html crash),
                       c_recentConsoleErrors = slice_last 30 (le_console st),
                       c_recentPageErrors = slice_last 20 (le_page st),
                       c_recentApiErrors = slice_last 30 (le_api st),
                       c_recentApiRequests = slice_last 50 (le_apiRequests st),
                       c_timestamp = isoNow ev,
                       c_url = href ev,
                       c_sessionDuration = now ev - START_TIME st\<rparr>) st
                else st)
          else st0)"

section \<open>The popup's merge of page data into stored data\<close>

text \<open>
  A stored item with the fields the merge compares (\<open>None\<close> for a missing field, which
  \<^verbatim>\<open>===\<close> finds equal to another missing one) and the rest of its content.
\<close>

record stored =
  s_timestamp :: "string option"
  s_message :: "string option"
  s_url :: "string option"
  s_rest :: string

text \<open>
  The popup's \<^verbatim>\<open>data\<close>: the code calls \<^verbatim>\<open>find\<close> on three of the arrays directly and
  on \<^verbatim>\<open>pageErrors\<close> through \<^verbatim>\<open>?.\<close>, creating it when it is missing. Each array of the
  page's answer may be missing.
\<close>

record popup_data =
  crashes :: "stored list"
  apiErrors :: "stored list"
  consoleErrors :: "stored list"
  pageErrors :: "stored list option"

record page_data =
  pd_crashes :: "stored list option"
  pd_apiErrors :: "stored list option"
  pd_consoleErrors :: "stored list option"
  pd_pageErrors :: "stored list option"

text \<open>One \<^verbatim>\<open>forEach\<close> of \<^verbatim>\<open>mergePageData\<close>: push unless \<^verbatim>\<open>find\<close> finds a match.\<close>

fun merge_each :: "(stored \<Rightarrow> stored \<Rightarrow> bool) \<Rightarrow> stored list \<Rightarrow> stored list \<Rightarrow> stored list" where
  "merge_each same [] target = target"
| "merge_each same (err # errs) target =
     merge_each same errs
       (if find (\<lambda>e. same e err) target = None then target @ [err] else target)"

definition or_empty :: "'a list option \<Rightarrow> 'a list" where
  "or_empty xs = (case xs of None \<Rightarrow> [] | Some ys \<Rightarrow> ys)"

fun merge_each_opt ::
  "(stored \<Rightarrow> stored \<Rightarrow> bool) \<Rightarrow> stored list \<Rightarrow> stored list option \<Rightarrow> stored list option" where
  "merge_each_opt same [] target = target"
| "merge_each_opt same (err # errs) target =
     merge_each_opt same errs
       (if find (\<lambda>e. same e err) (or_empty target) = None
        then Some (or_empty target @ [err]) else target)"

definition same_console :: "stored \<Rightarrow> stored \<Rightarrow> bool" where
  "same_console e err = (s_timestamp e = s_timestamp err \<and> s_message e = s_message err)"

definition same_page :: "stored \<Rightarrow> stored \<Rightarrow> bool" where
  "same_page e err = (s_timestamp e = s_timestamp err)"

definition same_api :: "stored \<Rightarrow> stored \<Rightarrow> bool" where
  "same_api e err = (s_timestamp e = s_timestamp err \<and> s_url e = s_url err)"

definition same_crash :: "stored \<Rightarrow> stored \<Rightarrow> bool" where
  "same_crash e c = (s_timestamp e = s_timestamp c)"

definition mergePageData :: "page_data \<Rightarrow> popup_data \<Rightarrow> popup_data" where
  "mergePageData pageData d =
     (let d1 = (case pd_consoleErrors pageData of
                  Some errs \<Rightarrow> d\<lparr>consoleErrors := merge_each same_console errs (consoleErrors d)\<rparr>
                | None \<Rightarrow> d);
          d2 = (case pd_pageErrors pageData of
                  Some errs \<Rightarrow> d1\<lparr>pageErrors := merge_each_opt same_page errs (pageErrors d1)\<rparr>
                | None \<Rightarrow> d1);
          d3 = (case pd_apiErrors pageData of
                  Some errs \<Rightarrow> d2\<lparr>apiErrors := merge_each same_api errs (apiErrors d2)\<rparr>
                | None \<Rightarrow> d2)
      in (case pd_crashes pageData of
            Some cs \<Rightarrow> d3\<lparr>crashes := merge_each same_crash cs (crashes d3)\<rparr>
          | None \<Rightarrow> d3))"

section \<open>Notions used to state the properties\<close>

text \<open>The record returned past the depth cap.\<close>

definition max_depth_sentinel :: ErrorInfo where
  "max_depth_sentinel = info (JStr ''[Max depth reached]'') (JStr ''unknown'')"

text \<open>
  The inputs whose message is never empty: null, undefined, booleans, numbers, non-empty
  strings, and instances of \<^verbatim>\<open>Error\<close> or \<^verbatim>\<open>ErrorEvent\<close>.
\<close>

fun message_guaranteed :: "heap \<Rightarrow> jsval \<Rightarrow> bool" where
  "message_guaranteed h (JStr s) = (s \<noteq> [])"
| "message_guaranteed h (JRef a) = (inst_Error (h a) \<or> inst_ErrorEvent (h a))"
| "message_guaranteed h v = True"

text \<open>
  The value that the generic-object branch recurses into: the \<^verbatim>\<open>error\<close> property, or
  else the \<^verbatim>\<open>reason\<close> property, of an object that is no \<^verbatim>\<open>Error\<close>, \<^verbatim>\<open>ErrorEvent\<close> or
  \<^verbatim>\<open>DOMException\<close> and has neither a component stack nor a message.
\<close>

definition unwrap :: "heap \<Rightarrow> jsval \<Rightarrow> jsval option" where
  "unwrap h arg =
     (if arg \<noteq> JNull \<and> arg \<noteq> JUndefined \<and> \<not> instanceOf inst_Error h arg
         \<and> \<not> instanceOf inst_ErrorEvent h arg \<and> \<not> instanceOf inst_DOMException h arg
         \<and> js_typeof h arg = ''object''
         \<and> \<not> truthy (getp h arg ''componentStack'') \<and> getp h arg ''message'' = JUndefined
      then (if truthy (getp h arg ''error'') then Some (getp h arg ''error'')
            else if truthy (getp h arg ''reason'') then Some (getp h arg ''reason'')
            else None)
      else None)"

fun unwrap_n :: "heap \<Rightarrow> nat \<Rightarrow> jsval \<Rightarrow> jsval option" where
  "unwrap_n h 0 v = Some v"
| "unwrap_n h (Suc n) v = (case unwrap h v of None \<Rightarrow> None | Some w \<Rightarrow> unwrap_n h n w)"

text \<open>
  Sample objects: \<^verbatim>\<open>{}\<close>; \<^verbatim>\<open>Object.create(null)\<close>, whose string coercion throws;
  \<^verbatim>\<open>new Error(m)\<close>; and stores in which object 0 is its own \<^verbatim>\<open>error\<close>, or its own
  \<^verbatim>\<open>cause\<close>.
\<close>

definition plain_object :: jsobj where
  "plain_object =
     \<lparr>inst_Error = False, inst_ErrorEvent = False, inst_DOMException = False,
      callable = False, props = [], toStr = Some ''[object Object]'',
      toJSON = JsonText ''{}''\<rparr>"

definition null_prototype_object :: jsobj where
  "null_prototype_object = plain_object\<lparr>toStr := None\<rparr>"

definition error_object :: "string \<Rightarrow> (string \<times> jsval) list \<Rightarrow> jsobj" where
  "error_object m extra =
     plain_object\<lparr>inst_Error := True,
                  props := [(''name'', JStr ''Error''), (''message'', JStr m)] @ extra,
                  toStr := Some (''Error: '' @ m)\<rparr>"

definition self_wrapped :: heap where
  "self_wrapped = (\<lambda>a. plain_object\<lparr>props := [(''error'', JRef 0)], toJSON := JsonThrows\<rparr>)"

definition self_caused :: heap where
  "self_caused = (\<lambda>a. error_object ''boom'' [(''cause'', JRef 0)])"

text \<open>
  For the detector's runs: a value whose string coercion does not throw; an arrival that
  the detector classifies as critical, with a coercible error type, at a time in
  \<open>[lo, hi)\<close>; sample page readings and entries.
\<close>

definition coercible :: "heap \<Rightarrow> jsval \<Rightarrow> bool" where
  "coercible h v = (case js_String h v of Inl e \<Rightarrow> False | Inr s \<Rightarrow> True)"

definition critical_at :: "heap \<Rightarrow> int \<Rightarrow> int \<Rightarrow> env \<times> entry \<Rightarrow> bool" where
  "critical_at h lo hi x =
     (isCriticalError (e_errorType (snd x)) (e_message (snd x))
      \<and> coercible h (e_errorType (snd x))
      \<and> lo \<le> now (fst x) \<and> now (fst x) < hi)"

definition sample_env :: "int \<Rightarrow> env" where
  "sample_env t =
     \<lparr>now = t, isoNow = ''2024-01-01T00:00:00.000Z'', href = ''https://app.example/'',
      currentStack = ''at main (app.js:1:1)'', json_parses = (\<lambda>s. False)\<rparr>"

definition sample_entry :: "string \<Rightarrow> string \<Rightarrow> string \<Rightarrow> entry" where
  "sample_entry ty errorType message =
     \<lparr>e_type = ty, e_errorType = JStr errorType, e_message = message, e_stack = JStr [],
      e_componentStack = JUndefined, e_filename = JUndefined, e_lineno = JUndefined,
      e_colno = JUndefined, e_timestamp = ''2024-01-01T00:00:00.000Z'',
      e_url = ''https://app.example/''\<rparr>"

definition arrivals :: "int list \<Rightarrow> entry \<Rightarrow> (env \<times> entry) list" where
  "arrivals ts e = map (\<lambda>t. (sample_env t, e)) ts"

text \<open>
  Five \<^verbatim>\<open>TypeError\<close> entries within a second, and nine \<^verbatim>\<open>ReferenceError\<close> entries in
  the nine seconds after it.
\<close>

definition type_error_burst :: "(env \<times> entry) list" where
  "type_error_burst =
     arrivals [0, 200, 400, 600, 800]
       (sample_entry ''console.error'' ''TypeError'' ''f is not a function'')"

definition reference_error_followers :: "(env \<times> entry) list" where
  "reference_error_followers =
     arrivals [1500, 2500, 3500, 4500, 5500, 6500, 7500, 8500, 9500]
       (sample_entry ''uncaught_error'' ''ReferenceError'' ''x is not defined'')"

text \<open>
  Five uncaught errors within a second whose message is \<^verbatim>\<open>x is not defined\<close> and
  whose \<^verbatim>\<open>name\<close>, and so the entry's error type, is object 0 of the store (an
  \<^verbatim>\<open>Error\<close> whose \<^verbatim>\<open>name\<close> the page has set to \<^verbatim>\<open>Object.create(null)\<close>).
\<close>

definition uncoercible_burst :: "(env \<times> entry) list" where
  "uncoercible_burst =
     arrivals [0, 200, 400, 600, 800]
       ((sample_entry ''uncaught_error'' [] ''x is not defined'')\<lparr>e_errorType := JRef 0\<rparr>)"

text \<open>
  The two shapes of the detector's state during a run that starts at time \<open>T\<close> with
  \<open>n\<close> crash events posted before: no trigger yet after \<open>k\<close> critical entries, or
  latched after exactly one more event with the reset due no earlier than
  \<open>T + 10000\<close>.
\<close>

definition quiet :: "int \<Rightarrow> nat \<Rightarrow> nat \<Rightarrow> agent \<Rightarrow> bool" where
  "quiet T n k st =
     (\<not> crashTriggered st \<and> length (crashEvents st) = n \<and> timers st = []
      \<and> length (recentCriticalErrors st) = k \<and> k < 3
      \<and> list_all (\<lambda>c. T \<le> capturedAt c) (recentCriticalErrors st))"

definition latched :: "int \<Rightarrow> nat \<Rightarrow> agent \<Rightarrow> bool" where
  "latched T n st =
     (crashTriggered st \<and> length (crashEvents st) = Suc n
      \<and> list_all (\<lambda>due. T + 10000 \<le> due) (timers st))"

text \<open>
  For the crash events: the four snapshots are the buffers' tails at the time of the
  emission; the sizes the payload may have; the reason of the last event that the DOM
  check posted; a document in which one selector matches a visible element.
\<close>

definition snapshots_of :: "agent \<Rightarrow> crash_event \<Rightarrow> bool" where
  "snapshots_of st c =
     (c_recentConsoleErrors c = slice_last 30 (le_console st)
      \<and> c_recentPageErrors c = slice_last 20 (le_page st)
      \<and> c_recentApiErrors c = slice_last 30 (le_api st)
      \<and> c_recentApiRequests c = slice_last 50 (le_apiRequests st))"

definition within_bounds :: "crash_event \<Rightarrow> bool" where
  "within_bounds c =
     (length (or_empty (c_recentCriticalErrors c)) \<le> 10
      \<and> length (c_recentConsoleErrors c) \<le> 30
      \<and> length (c_recentPageErrors c) \<le> 20
      \<and> length (c_recentApiErrors c) \<le> 30
      \<and> length (c_recentApiRequests c) \<le> 50)"

definition lastReportedReason :: "agent \<Rightarrow> string option" where
  "lastReportedReason st =
     (case filter (\<lambda>c. c_detectionMethod c = ''dom_based'') (crashEvents st) of
        [] \<Rightarrow> None
      | c # cs \<Rightarrow> Some (c_reason (last (c # cs))))"

definition sample_document :: "string \<Rightarrow> string \<Rightarrow> document" where
  "sample_document sel txt =
     (\<lambda>s. if s = sel
          then QElem \<lparr>offsetParent_null = False, innerText = Some txt,
                      outerHTML = Some (''<div>'' @ txt @ ''</div>'')\<rparr>
          else QNull)"

definition error_boundary_doc :: document where
  "error_boundary_doc = sample_document ''.error-boundary'' ''  Something went wrong  ''"

definition error_boundary_crash :: dom_crash where
  "error_boundary_crash =
     \<lparr>d_reason = ''Element: .error-boundary'', d_text = ''Something went wrong'',
      d_html = ''<div>  Something went wrong  </div>''\<rparr>"

text \<open>
  A run in which the DOM check first sees the error boundary while the error-based
  detector is latched, and sees it again after the cooldown callback has run.
\<close>

definition seen_while_latched :: agent where
  "seen_while_latched =
     checkForDOMCrash (sample_env 50) error_boundary_doc
       (state_of (checkForErrorBasedCrash (\<lambda>a. plain_object) (sample_env 0)
          (sample_entry ''uncaught_error'' ''ReferenceError'' ''x is not defined'')
          (init ''s1'' 0)))"

definition after_cooldown :: agent where
  "after_cooldown = runTimers 10000 seen_while_latched"

text \<open>The event that the DOM check posts for a scan result.\<close>

definition dom_event :: "env \<Rightarrow> dom_crash \<Rightarrow> agent \<Rightarrow> crash_event \<Rightarrow> bool" where
  "dom_event ev crash st c =
     (c_detectionMethod c = ''dom_based'' \<and> c_reason c = d_reason crash
      \<and> c_text c = Some (d_text crash) \<and> c_html c = Some (d_html crash)
      \<and> c_timestamp c = isoNow ev)"

text \<open>Sample requests, responses and stored items.\<close>

definition sample_request :: fetch_req where
  "sample_request =
     \<lparr>f_url = ''/api/orders'', f_method = ''GET'', f_requestBody = None, f_start = 0\<rparr>"

definition sample_xhr_req :: xhr_req where
  "sample_xhr_req =
     \<lparr>req_method = ''GET'', req_url = ''/api/orders'', req_start = 0, req_body = None\<rparr>"

definition sample_response :: "nat \<Rightarrow> string \<Rightarrow> response" where
  "sample_response status statusText =
     \<lparr>r_status = status, r_statusText = statusText, r_text = Some []\<rparr>"

definition sample_xhr_state :: "nat \<Rightarrow> xhr_state" where
  "sample_xhr_state status =
     \<lparr>xhr_status = status, xhr_statusText = ''Service Unavailable'',
      xhr_responseText = Some ''down''\<rparr>"

definition sample_stored :: "string \<Rightarrow> string \<Rightarrow> string \<Rightarrow> stored" where
  "sample_stored ts m body =
     \<lparr>s_timestamp = Some ts, s_message = Some m, s_url = None, s_rest = body\<rparr>"

text \<open>
  The elements that a merge appended to \<open>base\<close> are new: none has the key of an element
  of \<open>base\<close>.
\<close>

definition appended_new :: "(stored \<Rightarrow> stored \<Rightarrow> bool) \<Rightarrow> stored list \<Rightarrow> stored list \<Rightarrow> bool" where
  "appended_new same base ys = list_all (\<lambda>y. \<not> list_ex (\<lambda>e. same e y) base) ys"

text \<open>\<^verbatim>\<open>console.assert(false)\<close>, as a step on the agent's state.\<close>

definition failed_assert :: "agent \<Rightarrow> agent" where
  "failed_assert st =
     state_of (console_assert (\<lambda>a. plain_object) (sample_env 0) (JBool False) [] st)"

section \<open>Properties of the error extraction\<close>

lemma decimal_nonempty: "decimal n \<noteq> []"
  by (subst decimal.simps) simp

lemma show_int_nonempty: "show_int i \<noteq> []"
  by (simp add: show_int_def decimal_nonempty)

lemma js_typeof_nonempty: "js_typeof h v \<noteq> []"
  by (cases v) auto

lemma js_String_no_throw: "\<forall>a. toStr (h a) \<noteq> None \<Longrightarrow> \<exists>s. js_String h v = Inr s"
  by (cases v) (auto split: option.splits)

lemma extract_past_cap: "depth > 3 \<Longrightarrow> extractErrorInfo h v depth = Inr max_depth_sentinel"
  by (subst extractErrorInfo.simps) (simp add: max_depth_sentinel_def)

lemma extract_type_truthy:
  "extractErrorInfo h arg depth = Inr r \<Longrightarrow> truthy (ei_type r)"
proof (induction h arg depth arbitrary: r rule: extractErrorInfo.induct)
  case (1 h arg depth)
  from "1.prems" show ?case
    apply (subst (asm) extractErrorInfo.simps)
    apply (auto split: if_splits sum.splits option.splits json_result.splits
                simp: info_def jor_def js_typeof_nonempty dest: "1.IH")
    done
qed


lemma extract_no_throw:
  "\<forall>a. toStr (h a) \<noteq> None \<Longrightarrow> \<exists>r. extractErrorInfo h arg depth = Inr r"
proof (induction h arg depth rule: extractErrorInfo.induct)
  case (1 h arg depth)
  note nt = "1.prems"
  obtain s1 where s1: "js_String h arg = Inr s1"
    using js_String_no_throw[OF nt] by blast
  obtain s2 where s2: "js_String h (getp h arg ''message'') = Inr s2"
    using js_String_no_throw[OF nt] by blast
  show ?case
  proof (cases "depth > 3 \<or> arg = JNull \<or> arg = JUndefined")
    case True
    then show ?thesis
      by (subst extractErrorInfo.simps) auto
  next
    case False
    then have d: "\<not> 3 < depth" "arg \<noteq> JNull" "arg \<noteq> JUndefined" by auto
    show ?thesis
    proof (cases "instanceOf inst_Error h arg")
      case True
      show ?thesis
      proof (cases "truthy (getp h arg ''cause'')")
        case c: True
        from "1.IH"(1)[OF d True c nt] obtain r where
          "extractErrorInfo h (getp h arg ''cause'') (depth + 1) = Inr r" by blast
        then show ?thesis
          using d True c by (subst extractErrorInfo.simps) simp
      next
        case c: False
        then show ?thesis
          using d True by (subst extractErrorInfo.simps) simp
      qed
    next
      case ne: False
      show ?thesis
      proof (cases "instanceOf inst_ErrorEvent h arg \<or> instanceOf inst_DOMException h arg
                    \<or> \<not> (js_typeof h arg = ''object'' \<and> arg \<noteq> JNull)
                    \<or> truthy (getp h arg ''componentStack'')
                    \<or> getp h arg ''message'' \<noteq> JUndefined")
        case True
        then show ?thesis
          using d ne s1 s2 by (subst extractErrorInfo.simps) auto
      next
        case gen: False
        then have g: "\<not> instanceOf inst_ErrorEvent h arg" "\<not> instanceOf inst_DOMException h arg"
          "js_typeof h arg = ''object'' \<and> arg \<noteq> JNull" "\<not> truthy (getp h arg ''componentStack'')"
          "\<not> getp h arg ''message'' \<noteq> JUndefined" by auto
        show ?thesis
        proof (cases "truthy (getp h arg ''error'')")
          case e: True
          from "1.IH"(2)[OF d ne g e nt] show ?thesis
            using d ne g e by (subst extractErrorInfo.simps) simp
        next
          case e: False
          show ?thesis
          proof (cases "truthy (getp h arg ''reason'')")
            case r: True
            from "1.IH"(3)[OF d ne g e r nt] show ?thesis
              using d ne g e r by (subst extractErrorInfo.simps) simp
          next
            case r: False
            show ?thesis
              using d ne g e r s1
              by (subst extractErrorInfo.simps) (auto split: json_result.splits)
          qed
        qed
      qed
    qed
  qed
qed

lemma extract_message_truthy:
  "extractErrorInfo h v depth = Inr r \<Longrightarrow> depth \<le> 3 \<Longrightarrow> message_guaranteed h v \<Longrightarrow> truthy (ei_message r)"
  apply (subst (asm) extractErrorInfo.simps)
  apply (cases v)
  apply (auto split: if_splits sum.splits simp: info_def jor_def show_int_nonempty)
  done

lemma extract_unwrap:
  "unwrap h v = Some w \<Longrightarrow> depth \<le> 3 \<Longrightarrow> extractErrorInfo h v depth = extractErrorInfo h w (depth + 1)"
  apply (subst extractErrorInfo.simps)
  apply (auto simp: unwrap_def split: if_splits)
  done

lemma extract_unwrap_n:
  "unwrap_n h n v = Some w \<Longrightarrow> depth + n \<le> 4 \<Longrightarrow> extractErrorInfo h v depth = extractErrorInfo h w (depth + n)"
proof (induction n arbitrary: v depth)
  case 0
  then show ?case by simp
next
  case (Suc n)
  then show ?case
    by (auto split: option.splits simp: extract_unwrap)
qed

lemma extract_error_record:
  "instanceOf inst_Error h v \<Longrightarrow> extractErrorInfo h v 0 = Inr r \<Longrightarrow>
   ei_type r = jor (getp h v ''name'') (JStr ''Error'')
   \<and> ei_message r = jor (getp h v ''message'') (JStr ''No message'')
   \<and> ei_stack r = jor (getp h v ''stack'') (JStr [])"
  apply (subst (asm) extractErrorInfo.simps)
  apply (cases v)
  apply (auto split: if_splits sum.splits simp: info_def)
  done

lemma extract_cause_at_cap:
  "instanceOf inst_Error h v \<Longrightarrow> truthy (getp h v ''cause'') \<Longrightarrow>
   \<exists>r. extractErrorInfo h v 3 = Inr r \<and> ei_cause r = JStr ''[Max depth reached]''"
  apply (subst extractErrorInfo.simps)
  apply (cases v)
  apply (auto simp: extract_past_cap max_depth_sentinel_def info_def)
  done

text \<open>
  C2, as the code has it. \<^verbatim>\<open>extractErrorInfo(v, 0)\<close> is a total function (its
  recursion is bounded by the depth argument). When no object's string coercion throws,
  it returns a record whose type is non-empty (truthy), and whose message is non-empty
  for null, undefined, booleans, numbers, non-empty strings and instances of
  \<^verbatim>\<open>Error\<close> or \<^verbatim>\<open>ErrorEvent\<close>. For other inputs the message can be empty.
\<close>

theorem extractErrorInfo_returns_typed_record:
  assumes "\<forall>a. toStr (h a) \<noteq> None"
  shows "\<exists>r. extractErrorInfo h v 0 = Inr r \<and> truthy (ei_type r)
             \<and> (message_guaranteed h v \<longrightarrow> truthy (ei_message r))"
proof -
  from extract_no_throw[OF assms] obtain r where r: "extractErrorInfo h v 0 = Inr r"
    by blast
  have "truthy (ei_type r)"
    using r by (rule extract_type_truthy)
  moreover have "message_guaranteed h v \<longrightarrow> truthy (ei_message r)"
    using r by (auto intro: extract_message_truthy)
  ultimately show ?thesis
    using r by blast
qed

theorem extractErrorInfo_returns_typed_record_witness:
  "(\<forall>a. toStr (self_caused a) \<noteq> None)
   \<and> message_guaranteed self_caused (JRef 0)
   \<and> (\<exists>r. extractErrorInfo self_caused (JRef 0) 0 = Inr r \<and> truthy (ei_type r)
            \<and> truthy (ei_message r))"
proof -
  have nt: "\<forall>a. toStr (self_caused a) \<noteq> None"
    by (simp add: self_caused_def error_object_def plain_object_def)
  have g: "message_guaranteed self_caused (JRef 0)"
    by (simp add: self_caused_def error_object_def plain_object_def)
  from extractErrorInfo_returns_typed_record[OF nt, of "JRef 0"] g nt show ?thesis
    by blast
qed

text \<open>
  The empty string is normalised to a record with an empty message, and so is an object
  whose \<^verbatim>\<open>message\<close> property is the empty string.
\<close>

theorem extractErrorInfo_empty_message:
  "extractErrorInfo (\<lambda>a. plain_object) (JStr []) 0 = Inr (info (JStr []) (JStr ''string''))
   \<and> ei_message (info (JStr []) (JStr ''string'')) = JStr []
   \<and> \<not> truthy (JStr [])"
  by (simp add: extractErrorInfo.simps info_def)

text \<open>
  C3, as the code has it. A call past depth 3 returns the sentinel without looking at
  its argument, so the recursion stops there. A value that the generic-object branch
  unwraps four times (through \<^verbatim>\<open>error\<close> or \<^verbatim>\<open>reason\<close>, cyclic or not) is normalised
  to the sentinel. Of a \<^verbatim>\<open>cause\<close> only the message of its record is kept: a cause
  followed at depth 3 contributes the sentinel's message, and the record of an
  \<^verbatim>\<open>Error\<close> is its own (its name and message), never the sentinel. Termination of
  every call is the termination proof of \<open>extractErrorInfo\<close>, by the measure
  \<open>4 - depth\<close>.
\<close>

theorem extractErrorInfo_depth_cap:
  "(depth > 3 \<longrightarrow> extractErrorInfo h v depth = Inr max_depth_sentinel)
   \<and> (unwrap_n h 4 v \<noteq> None \<longrightarrow> extractErrorInfo h v 0 = Inr max_depth_sentinel)
   \<and> (instanceOf inst_Error h v \<and> truthy (getp h v ''cause'') \<longrightarrow>
        (\<exists>r. extractErrorInfo h v 3 = Inr r \<and> ei_cause r = JStr ''[Max depth reached]''))
   \<and> (instanceOf inst_Error h v \<and> extractErrorInfo h v 0 = Inr r \<longrightarrow>
        ei_type r = jor (getp h v ''name'') (JStr ''Error'')
        \<and> ei_message r = jor (getp h v ''message'') (JStr ''No message'')
        \<and> r \<noteq> max_depth_sentinel)"
proof (intro conjI impI)
  assume "depth > 3"
  then show "extractErrorInfo h v depth = Inr max_depth_sentinel"
    by (rule extract_past_cap)
next
  assume "unwrap_n h 4 v \<noteq> None"
  then obtain w where w: "unwrap_n h 4 v = Some w"
    by blast
  have "extractErrorInfo h v 0 = extractErrorInfo h w (0 + 4)"
    using w by (rule extract_unwrap_n) simp
  then show "extractErrorInfo h v 0 = Inr max_depth_sentinel"
    by (simp add: extract_past_cap)
next
  assume "instanceOf inst_Error h v \<and> truthy (getp h v ''cause'')"
  then show "\<exists>r. extractErrorInfo h v 3 = Inr r \<and> ei_cause r = JStr ''[Max depth reached]''"
    by (auto intro: extract_cause_at_cap)
next
  assume e: "instanceOf inst_Error h v \<and> extractErrorInfo h v 0 = Inr r"
  show "ei_type r = jor (getp h v ''name'') (JStr ''Error'')"
    using extract_error_record[of h v r] e by simp
  show "ei_message r = jor (getp h v ''message'') (JStr ''No message'')"
    using extract_error_record[of h v r] e by simp
  have "ei_stack r \<noteq> JUndefined"
    using extract_error_record[of h v r] e by (auto simp: jor_def)
  then show "r \<noteq> max_depth_sentinel"
    by (auto simp: max_depth_sentinel_def info_def)
qed

theorem extractErrorInfo_depth_cap_witness:
  "((4::nat) > 3 \<and> extractErrorInfo self_wrapped (JRef 0) 4 = Inr max_depth_sentinel)
   \<and> (unwrap_n self_wrapped 4 (JRef 0) \<noteq> None
        \<and> extractErrorInfo self_wrapped (JRef 0) 0 = Inr max_depth_sentinel)
   \<and> (instanceOf inst_Error self_caused (JRef 0)
        \<and> truthy (getp self_caused (JRef 0) ''cause'')
        \<and> (\<exists>r. extractErrorInfo self_caused (JRef 0) 3 = Inr r
                 \<and> ei_cause r = JStr ''[Max depth reached]''))
   \<and> (extractErrorInfo self_caused (JRef 0) 0
         = Inr ((info (JStr ''boom'') (JStr ''Error''))
                 \<lparr>ei_stack := JStr [], ei_cause := JStr ''boom''\<rparr>)
        \<and> (info (JStr ''boom'') (JStr ''Error''))
             \<lparr>ei_stack := JStr [], ei_cause := JStr ''boom''\<rparr> \<noteq> max_depth_sentinel)"
proof -
  have u: "unwrap self_wrapped (JRef 0) = Some (JRef 0)"
    by (simp add: unwrap_def self_wrapped_def plain_object_def)
  have u4: "unwrap_n self_wrapped 4 (JRef 0) \<noteq> None"
    by (simp add: numeral_eq_Suc u)
  have c: "instanceOf inst_Error self_caused (JRef 0) \<and> truthy (getp self_caused (JRef 0) ''cause'')"
    by (simp add: self_caused_def error_object_def plain_object_def)
  have r: "extractErrorInfo self_caused (JRef 0) 0
         = Inr ((info (JStr ''boom'') (JStr ''Error''))
                 \<lparr>ei_stack := JStr [], ei_cause := JStr ''boom''\<rparr>)"
    by code_simp
  from extractErrorInfo_depth_cap[of 4 self_wrapped "JRef 0"]
       extractErrorInfo_depth_cap[of 0 self_caused "JRef 0"
         "(info (JStr ''boom'') (JStr ''Error''))\<lparr>ei_stack := JStr [], ei_cause := JStr ''boom''\<rparr>"]
       u4 c r
  show ?thesis
    by simp
qed

text \<open>
  An error that is its own cause is unwrapped past depth 3, and its record is not the
  sentinel: it is the error's own record, with the error's message as the cause.
\<close>

theorem cyclic_cause_is_not_the_sentinel:
  "instanceOf inst_Error self_caused (JRef 0)
   \<and> getp self_caused (JRef 0) ''cause'' = JRef 0
   \<and> extractErrorInfo self_caused (JRef 0) 0
       = Inr ((info (JStr ''boom'') (JStr ''Error''))
               \<lparr>ei_stack := JStr [], ei_cause := JStr ''boom''\<rparr>)
   \<and> extractErrorInfo self_caused (JRef 0) 0 \<noteq> Inr max_depth_sentinel"
  by code_simp

section \<open>Properties of the error-based detector\<close>

lemma runTimers_none: "list_all (\<lambda>due. t < due) (timers st) \<Longrightarrow> runTimers t st = st"
  by (auto simp: runTimers_def list_ex_iff list_all_iff)

lemma check_latched_posted:
  "crashTriggered st \<Longrightarrow> posted (state_of (checkForErrorBasedCrash h ev e st)) = posted st"
  by (simp add: checkForErrorBasedCrash_def Let_def)

lemma check_latched_keeps:
  "crashTriggered st \<Longrightarrow>
   crashTriggered (state_of (checkForErrorBasedCrash h ev e st))
   \<and> timers (state_of (checkForErrorBasedCrash h ev e st)) = timers st
   \<and> crashEvents (state_of (checkForErrorBasedCrash h ev e st)) = crashEvents st"
  by (simp add: checkForErrorBasedCrash_def Let_def crashEvents_def)

lemma step_latched:
  assumes "latched T n st" "critical_at h T (T + 10000) (ev, e)"
  shows "latched T n (state_of (checkForErrorBasedCrash h ev e (runTimers (now ev) st)))"
proof -
  have "list_all (\<lambda>due. now ev < due) (timers st)"
    using assms by (auto simp: latched_def critical_at_def list_all_iff)
  then have rt: "runTimers (now ev) st = st"
    by (rule runTimers_none)
  have ct: "crashTriggered st" using assms by (simp add: latched_def)
  show ?thesis
    using assms(1) check_latched_keeps[OF ct, of h ev e]
    by (simp add: rt latched_def)
qed

lemma trigger_effect:
  assumes "js_String h (e_errorType e) = Inr ty"
  shows "crashTriggered (state_of (triggerCrashFromError h ev e st))
         \<and> timers (state_of (triggerCrashFromError h ev e st)) = timers st @ [now ev + 10000]
         \<and> length (crashEvents (state_of (triggerCrashFromError h ev e st)))
             = Suc (length (crashEvents st))"
  by (simp add: triggerCrashFromError_def Let_def crashEvents_def sendToContentScript_def
                is_crash_def assms)

lemma step_quiet:
  assumes q: "quiet T n k st" and c: "critical_at h T (T + 10000) (ev, e)"
  shows "quiet T n (Suc k) (state_of (checkForErrorBasedCrash h ev e (runTimers (now ev) st)))
         \<or> latched T n (state_of (checkForErrorBasedCrash h ev e (runTimers (now ev) st)))"
proof -
  define st1 where
    "st1 = st\<lparr>recentCriticalErrors :=
                recentCriticalErrors st @ [\<lparr>c_entry = e, capturedAt = now ev\<rparr>]\<rparr>"
  define trig where
    "trig = (e_errorType e = JStr ''ReferenceError''
             \<or> js_includes (e_message e) ''is not defined''
             \<or> truthy (e_componentStack e)
             \<or> length (recentCriticalErrors st1) \<ge> 3)"
  have rt: "runTimers (now ev) st = st"
    using q by (simp add: runTimers_def quiet_def)
  obtain ty where ty: "js_String h (e_errorType e) = Inr ty"
    using c by (auto simp: critical_at_def coercible_def split: sum.splits)
  have keep: "filter (\<lambda>c. now ev - 60000 < capturedAt c) (recentCriticalErrors st)
              = recentCriticalErrors st"
    using q c by (auto simp: quiet_def critical_at_def list_all_iff filter_id_conv)
  have chk: "checkForErrorBasedCrash h ev e st
             = (if trig then triggerCrashFromError h ev e st1 else Done st1)"
    using q c
    by (simp add: checkForErrorBasedCrash_def Let_def keep st1_def trig_def quiet_def
                  critical_at_def)
  have st1: "\<not> crashTriggered st1" "length (crashEvents st1) = n" "timers st1 = []"
    "length (recentCriticalErrors st1) = Suc k"
    "list_all (\<lambda>c. T \<le> capturedAt c) (recentCriticalErrors st1)"
    using q c by (simp_all add: st1_def quiet_def crashEvents_def critical_at_def)
  show ?thesis
  proof (cases trig)
    case True
    then have "latched T n (state_of (checkForErrorBasedCrash h ev e st))"
      using trigger_effect[OF ty, of ev st1] st1 c
      by (simp add: chk latched_def critical_at_def)
    then show ?thesis by (simp add: rt)
  next
    case False
    then have "Suc k < 3"
      using st1 by (simp add: trig_def)
    then have "quiet T n (Suc k) (state_of (checkForErrorBasedCrash h ev e st))"
      using False st1 by (simp add: chk quiet_def)
    then show ?thesis by (simp add: rt)
  qed
qed

lemma feed_latched:
  "latched T n st \<Longrightarrow> list_all (critical_at h T (T + 10000)) es \<Longrightarrow> latched T n (feed h es st)"
proof (induction es arbitrary: st)
  case Nil
  then show ?case by simp
next
  case (Cons x es)
  obtain ev e where x: "x = (ev, e)" by (cases x)
  from Cons.prems have "latched T n (state_of (checkForErrorBasedCrash h ev e (runTimers (now ev) st)))"
    by (simp add: x step_latched)
  then show ?case
    using Cons.IH Cons.prems by (simp add: x)
qed

lemma feed_quiet:
  "quiet T n k st \<Longrightarrow> list_all (critical_at h T (T + 10000)) es \<Longrightarrow>
   quiet T n (k + length es) (feed h es st) \<or> latched T n (feed h es st)"
proof (induction es arbitrary: st k)
  case Nil
  then show ?case by simp
next
  case (Cons x es)
  obtain ev e where x: "x = (ev, e)" by (cases x)
  let ?st = "state_of (checkForErrorBasedCrash h ev e (runTimers (now ev) st))"
  from Cons.prems have c: "critical_at h T (T + 10000) (ev, e)"
    and rest: "list_all (critical_at h T (T + 10000)) es"
    by (simp_all add: x)
  from step_quiet[OF Cons.prems(1) c] show ?case
  proof
    assume "quiet T n (Suc k) ?st"
    from Cons.IH[OF this rest] show ?thesis by (simp add: x)
  next
    assume "latched T n ?st"
    from feed_latched[OF this rest] show ?thesis by (simp add: x)
  qed
qed

lemma quiet_start:
  "recentCriticalErrors st = [] \<Longrightarrow> \<not> crashTriggered st \<Longrightarrow> timers st = [] \<Longrightarrow>
   quiet T (length (crashEvents st)) 0 st"
  by (simp add: quiet_def)


lemma feed_append: "feed h (xs @ ys) st = feed h ys (feed h xs st)"
  by (induction xs arbitrary: st) auto

lemma feed_burst_latched:
  assumes "3 \<le> length es" "list_all (critical_at h T (T + 10000)) es"
    and "quiet T n 0 st"
  shows "latched T n (feed h es st)"
  using feed_quiet[OF assms(3) assms(2)] assms(1)
  by (auto simp: quiet_def)

lemma critical_at_mono:
  "hi \<le> hi' \<Longrightarrow> list_all (critical_at h lo hi) es \<Longrightarrow> list_all (critical_at h lo hi') es"
  by (auto simp: list_all_iff critical_at_def)

text \<open>
  The latch on entries whose error type coerces to a string. From a state with an empty
  window, the latch clear and no reset pending, five entries that the detector
  classifies as critical, arriving within one second from time \<open>T\<close>, make it post
  exactly one crash event; any further critical entries arriving before
  \<open>T + 10000\<close>, that is before the cooldown callback is due, add none. And in any
  state with the latch set, the detector posts nothing for any entry.
\<close>

theorem burst_emits_one_crash_event:
  assumes "length burst = 5"
    and "list_all (critical_at h T (T + 1000)) burst"
    and "list_all (critical_at h T (T + 10000)) further"
    and "recentCriticalErrors st = []" and "\<not> crashTriggered st" and "timers st = []"
  shows "length (crashEvents (feed h burst st)) = Suc (length (crashEvents st))
         \<and> length (crashEvents (feed h (burst @ further) st)) = Suc (length (crashEvents st))
         \<and> (crashTriggered st' \<longrightarrow>
              posted (state_of (checkForErrorBasedCrash h ev e st')) = posted st')"
proof -
  have b: "list_all (critical_at h T (T + 10000)) burst"
    using assms(2) by (rule critical_at_mono[rotated]) simp
  have q: "quiet T (length (crashEvents st)) 0 st"
    using assms(4-6) by (rule quiet_start)
  have l1: "latched T (length (crashEvents st)) (feed h burst st)"
    using assms(1) b q by (intro feed_burst_latched) simp_all
  have l2: "latched T (length (crashEvents st)) (feed h (burst @ further) st)"
    using feed_latched[OF l1 assms(3)] by (simp add: feed_append)
  show ?thesis
    using l1 l2 by (simp add: latched_def check_latched_posted)
qed

theorem burst_emits_one_crash_event_witness:
  "length type_error_burst = 5
   \<and> list_all (critical_at (\<lambda>a. plain_object) 0 (0 + 1000)) type_error_burst
   \<and> list_all (critical_at (\<lambda>a. plain_object) 0 (0 + 10000)) reference_error_followers
   \<and> recentCriticalErrors (init ''s1'' 0) = []
   \<and> \<not> crashTriggered (init ''s1'' 0)
   \<and> timers (init ''s1'' 0) = []
   \<and> crashEvents (init ''s1'' 0) = []
   \<and> length (crashEvents (feed (\<lambda>a. plain_object) type_error_burst (init ''s1'' 0))) = 1
   \<and> length (crashEvents (feed (\<lambda>a. plain_object)
                (type_error_burst @ reference_error_followers) (init ''s1'' 0))) = 1
   \<and> crashTriggered ((init ''s1'' 0)\<lparr>crashTriggered := True\<rparr>)
   \<and> posted (state_of (checkForErrorBasedCrash (\<lambda>a. plain_object) (sample_env 5)
                (sample_entry ''uncaught_error'' ''ReferenceError'' ''x is not defined'')
                ((init ''s1'' 0)\<lparr>crashTriggered := True\<rparr>)))
       = posted ((init ''s1'' 0)\<lparr>crashTriggered := True\<rparr>)"
proof -
  have crit:
    "critical_at (\<lambda>a. plain_object) 0 hi (sample_env t, sample_entry ty ''TypeError'' m)
       = (0 \<le> t \<and> t < hi)"
    "critical_at (\<lambda>a. plain_object) 0 hi (sample_env t, sample_entry ty ''ReferenceError'' m)
       = (0 \<le> t \<and> t < hi)" for hi t ty m
    by (simp_all add: critical_at_def sample_env_def sample_entry_def isCriticalError_def
                      CRASH_ERROR_TYPES_def coercible_def)
  have h1: "length type_error_burst = 5"
    by (simp add: type_error_burst_def arrivals_def)
  have h2: "list_all (critical_at (\<lambda>a. plain_object) 0 (0 + 1000)) type_error_burst"
    by (simp add: type_error_burst_def arrivals_def crit)
  have h3: "list_all (critical_at (\<lambda>a. plain_object) 0 (0 + 10000)) reference_error_followers"
    by (simp add: reference_error_followers_def arrivals_def crit)
  have h4: "crashTriggered ((init ''s1'' 0)\<lparr>crashTriggered := True\<rparr>)"
    by simp
  have i: "recentCriticalErrors (init ''s1'' 0) = []" "\<not> crashTriggered (init ''s1'' 0)"
    "timers (init ''s1'' 0) = []" "crashEvents (init ''s1'' 0) = []"
    by (simp_all add: init_def crashEvents_def)
  from burst_emits_one_crash_event[OF h1 h2 h3 i(1-3),
         where st' = "(init ''s1'' 0)\<lparr>crashTriggered := True\<rparr>" and ev = "sample_env 5"
         and e = "sample_entry ''uncaught_error'' ''ReferenceError'' ''x is not defined''"]
       h1 h2 h3 h4 i
  show ?thesis
    by simp
qed

text \<open>
  C1 at a failing input. \<^verbatim>\<open>triggerCrashFromError\<close> sets the latch, then builds the
  reason with a template literal that coerces the error type, then schedules the reset.
  For a burst of five critical entries whose error type is an object with no string
  coercion, the first call throws in the template: no crash event is posted by the
  burst, the latch is set, and no reset is pending, so the latch stays set at any later
  time.
\<close>

theorem burst_with_uncoercible_error_type_emits_nothing:
  "length uncoercible_burst = 5
   \<and> list_all (\<lambda>x. isCriticalError (e_errorType (snd x)) (e_message (snd x))) uncoercible_burst
   \<and> list_all (\<lambda>x. 0 \<le> now (fst x) \<and> now (fst x) < 1000) uncoercible_burst
   \<and> (case checkForErrorBasedCrash (\<lambda>a. null_prototype_object) (fst (hd uncoercible_burst))
              (snd (hd uncoercible_burst)) (init ''s1'' 0) of
         Threw x st \<Rightarrow> x = TypeError \<and> crashTriggered st \<and> timers st = [] \<and> posted st = []
       | Done st \<Rightarrow> False)
   \<and> crashEvents (feed (\<lambda>a. null_prototype_object) uncoercible_burst (init ''s1'' 0)) = []
   \<and> crashTriggered (feed (\<lambda>a. null_prototype_object) uncoercible_burst (init ''s1'' 0))
   \<and> timers (feed (\<lambda>a. null_prototype_object) uncoercible_burst (init ''s1'' 0)) = []
   \<and> crashTriggered
        (runTimers 1000000 (feed (\<lambda>a. null_prototype_object) uncoercible_burst (init ''s1'' 0)))"
  by code_simp

text \<open>
  C6. With the latch clear (whatever the window holds), an entry with error type
  \<^verbatim>\<open>ReferenceError\<close> and message \<^verbatim>\<open>x is not defined\<close> makes the detector return
  normally having posted exactly one more message: a \<^verbatim>\<open>crash_detected\<close> whose
  detection method is \<^verbatim>\<open>error_based\<close> and whose primary error carries the message.
\<close>

theorem reference_error_emits_crash:
  assumes "e_errorType e = JStr ''ReferenceError''"
    and "e_message e = ''x is not defined''"
    and "\<not> crashTriggered st"
  shows "\<exists>c st'. checkForErrorBasedCrash h ev e st = Done st'
           \<and> posted st' = posted st @
                [\<lparr>p_source = ''L2_AGENT_MAIN_WORLD'', p_type = ''crash_detected'',
                  p_data = PCrash c, p_sessionId = SESSION_ID st, p_pageUrl = href ev\<rparr>]
           \<and> c_detectionMethod c = ''error_based''
           \<and> map_option pe_message (c_primaryError c) = Some ''x is not defined''"
  using assms
  by (simp add: checkForErrorBasedCrash_def triggerCrashFromError_def Let_def
                isCriticalError_def CRASH_ERROR_TYPES_def sendToContentScript_def)

theorem reference_error_emits_crash_witness:
  "e_errorType (sample_entry ''uncaught_error'' ''ReferenceError'' ''x is not defined'')
     = JStr ''ReferenceError''
   \<and> e_message (sample_entry ''uncaught_error'' ''ReferenceError'' ''x is not defined'')
     = ''x is not defined''
   \<and> \<not> crashTriggered (init ''s1'' 0)
   \<and> recentCriticalErrors (init ''s1'' 0) = []
   \<and> (\<exists>c st'. checkForErrorBasedCrash (\<lambda>a. plain_object) (sample_env 7)
                  (sample_entry ''uncaught_error'' ''ReferenceError'' ''x is not defined'')
                  (init ''s1'' 0) = Done st'
           \<and> posted st' = posted (init ''s1'' 0) @
                [\<lparr>p_source = ''L2_AGENT_MAIN_WORLD'', p_type = ''crash_detected'',
                  p_data = PCrash c, p_sessionId = SESSION_ID (init ''s1'' 0),
                  p_pageUrl = href (sample_env 7)\<rparr>]
           \<and> c_detectionMethod c = ''error_based''
           \<and> map_option pe_message (c_primaryError c) = Some ''x is not defined'')"
proof -
  have h1: "e_errorType (sample_entry ''uncaught_error'' ''ReferenceError'' ''x is not defined'')
     = JStr ''ReferenceError''"
    and h2: "e_message (sample_entry ''uncaught_error'' ''ReferenceError'' ''x is not defined'')
     = ''x is not defined''"
    by (simp_all add: sample_entry_def)
  have h3: "\<not> crashTriggered (init ''s1'' 0)" and h4: "recentCriticalErrors (init ''s1'' 0) = []"
    by (simp_all add: init_def)
  from reference_error_emits_crash[OF h1 h2 h3, of "\<lambda>a. plain_object" "sample_env 7"] h1 h2 h3 h4
  show ?thesis
    by blast
qed

section \<open>Properties of the crash events and of the DOM check\<close>

lemma length_slice_last: "length (slice_last n xs) \<le> n"
  by (simp add: slice_last_def)

text \<open>
  C9. The two places that post a crash event. \<^verbatim>\<open>triggerCrashFromError\<close> either
  throws (in the coercion of the error type) and posts nothing, or posts one event with
  the last 10 entries of the window and the last 30, 20, 30 and 50 entries of the
  console, page, api and apiRequests buffers. \<^verbatim>\<open>checkForDOMCrash\<close> posts nothing or one
  event with the same four snapshots and no window entries.
\<close>

theorem crash_event_snapshots_bounded:
  "(case triggerCrashFromError h ev e st of
      Done st' \<Rightarrow>
        (\<exists>c. crashEvents st' = crashEvents st @ [c] \<and> snapshots_of st c
            \<and> c_recentCriticalErrors c = Some (slice_last 10 (recentCriticalErrors st))
            \<and> within_bounds c)
    | Threw x st' \<Rightarrow> crashEvents st' = crashEvents st)
   \<and> (crashEvents (checkForDOMCrash ev doc st) = crashEvents st
       \<or> (\<exists>c. crashEvents (checkForDOMCrash ev doc st) = crashEvents st @ [c]
              \<and> snapshots_of st c \<and> c_recentCriticalErrors c = None \<and> within_bounds c))"
proof (rule conjI)
  show "case triggerCrashFromError h ev e st of
      Done st' \<Rightarrow>
        (\<exists>c. crashEvents st' = crashEvents st @ [c] \<and> snapshots_of st c
            \<and> c_recentCriticalErrors c = Some (slice_last 10 (recentCriticalErrors st))
            \<and> within_bounds c)
    | Threw x st' \<Rightarrow> crashEvents st' = crashEvents st"
    by (simp add: triggerCrashFromError_def Let_def crashEvents_def sendToContentScript_def
                  is_crash_def snapshots_of_def within_bounds_def length_slice_last or_empty_def
             split: sum.splits)
next
  show "crashEvents (checkForDOMCrash ev doc st) = crashEvents st
       \<or> (\<exists>c. crashEvents (checkForDOMCrash ev doc st) = crashEvents st @ [c]
              \<and> snapshots_of st c \<and> c_recentCriticalErrors c = None \<and> within_bounds c)"
    by (simp add: checkForDOMCrash_def Let_def crashEvents_def sendToContentScript_def
                  is_crash_def snapshots_of_def within_bounds_def length_slice_last or_empty_def
             split: option.splits)
qed


lemma dom_check_none:
  "detectDOMCrash doc = None \<Longrightarrow> checkForDOMCrash ev doc st = st"
  by (simp add: checkForDOMCrash_def)

lemma dom_check_same:
  "detectDOMCrash doc = Some crash \<Longrightarrow> lastDOMCrashReason st = Some (d_reason crash) \<Longrightarrow>
   checkForDOMCrash ev doc st = st"
  by (simp add: checkForDOMCrash_def)

lemma dom_check_latched:
  "detectDOMCrash doc = Some crash \<Longrightarrow> lastDOMCrashReason st \<noteq> Some (d_reason crash) \<Longrightarrow>
   crashTriggered st \<Longrightarrow>
   checkForDOMCrash ev doc st = st\<lparr>lastDOMCrashReason := Some (d_reason crash)\<rparr>"
  by (auto simp: checkForDOMCrash_def Let_def)

lemma dom_check_emits:
  "detectDOMCrash doc = Some crash \<Longrightarrow> lastDOMCrashReason st \<noteq> Some (d_reason crash) \<Longrightarrow>
   \<not> crashTriggered st \<Longrightarrow>
   \<exists>c. posted (checkForDOMCrash ev doc st)
           = posted st @ [\<lparr>p_source = ''L2_AGENT_MAIN_WORLD'',
                           p_type = ''crash_detected'', p_data = PCrash c,
                           p_sessionId = SESSION_ID st, p_pageUrl = href ev\<rparr>]
       \<and> dom_event ev crash st c"
  by (auto simp: checkForDOMCrash_def Let_def dom_event_def sendToContentScript_def)

lemma dom_check_remembers:
  "detectDOMCrash doc = Some crash \<Longrightarrow>
   lastDOMCrashReason (checkForDOMCrash ev doc st) = Some (d_reason crash)"
  by (auto simp: checkForDOMCrash_def Let_def sendToContentScript_def)

text \<open>
  C7, as the code has it. A check that finds nothing changes nothing. A check that finds
  a match remembers its reason, whether or not it posts; it posts one \<^verbatim>\<open>dom_based\<close>
  event exactly when the reason differs from the remembered one and the error-based
  detector is not latched; and a later check whose match has the same reason changes
  nothing.
\<close>

theorem dom_check_emits_on_new_reason:
  "(detectDOMCrash doc = None \<longrightarrow> checkForDOMCrash ev doc st = st)
   \<and> (detectDOMCrash doc = Some crash \<longrightarrow>
        lastDOMCrashReason (checkForDOMCrash ev doc st) = Some (d_reason crash)
        \<and> (if lastDOMCrashReason st \<noteq> Some (d_reason crash) \<and> \<not> crashTriggered st
            then \<exists>c. dom_event ev crash st c
                   \<and> posted (checkForDOMCrash ev doc st)
                       = posted st @ [\<lparr>p_source = ''L2_AGENT_MAIN_WORLD'',
                                       p_type = ''crash_detected'', p_data = PCrash c,
                                       p_sessionId = SESSION_ID st, p_pageUrl = href ev\<rparr>]
            else posted (checkForDOMCrash ev doc st) = posted st)
        \<and> (\<forall>ev' doc' crash'. detectDOMCrash doc' = Some crash' \<and> d_reason crash' = d_reason crash
              \<longrightarrow> checkForDOMCrash ev' doc' (checkForDOMCrash ev doc st)
                    = checkForDOMCrash ev doc st))"
proof (intro conjI impI allI)
  assume "detectDOMCrash doc = None"
  then show "checkForDOMCrash ev doc st = st"
    by (rule dom_check_none)
next
  assume d: "detectDOMCrash doc = Some crash"
  show "lastDOMCrashReason (checkForDOMCrash ev doc st) = Some (d_reason crash)"
    using d by (rule dom_check_remembers)
  show "if lastDOMCrashReason st \<noteq> Some (d_reason crash) \<and> \<not> crashTriggered st
        then \<exists>c. dom_event ev crash st c
               \<and> posted (checkForDOMCrash ev doc st)
                   = posted st @ [\<lparr>p_source = ''L2_AGENT_MAIN_WORLD'',
                                   p_type = ''crash_detected'', p_data = PCrash c,
                                   p_sessionId = SESSION_ID st, p_pageUrl = href ev\<rparr>]
        else posted (checkForDOMCrash ev doc st) = posted st"
  proof (cases "lastDOMCrashReason st \<noteq> Some (d_reason crash) \<and> \<not> crashTriggered st")
    case True
    with dom_check_emits[OF d, of st ev] show ?thesis
      by auto
  next
    case False
    show ?thesis
    proof (cases "lastDOMCrashReason st = Some (d_reason crash)")
      case same: True
      then show ?thesis
        using False by (simp add: dom_check_same[OF d same])
    next
      case differs: False
      with False have l: "crashTriggered st" by simp
      show ?thesis
        using False by (simp add: dom_check_latched[OF d differs l])
    qed
  qed
  fix ev' doc' crash'
  assume "detectDOMCrash doc' = Some crash' \<and> d_reason crash' = d_reason crash"
  then show "checkForDOMCrash ev' doc' (checkForDOMCrash ev doc st) = checkForDOMCrash ev doc st"
    using dom_check_remembers[OF d, of ev st] by (auto intro: dom_check_same)
qed


lemma detect_error_boundary: "detectDOMCrash error_boundary_doc = Some error_boundary_crash"
  by (simp add: detectDOMCrash_def CRASH_SELECTORS_def error_boundary_doc_def
                sample_document_def error_boundary_crash_def trim_def js_space_def)

lemma detect_nothing: "detectDOMCrash (\<lambda>s. QNull) = None"
  by (simp add: detectDOMCrash_def CRASH_SELECTORS_def)

theorem dom_check_emits_on_new_reason_witness:
  "(detectDOMCrash (\<lambda>s. QNull) = None
     \<and> checkForDOMCrash (sample_env 1) (\<lambda>s. QNull) (init ''s1'' 0) = init ''s1'' 0)
   \<and> detectDOMCrash error_boundary_doc = Some error_boundary_crash
   \<and> lastDOMCrashReason (init ''s1'' 0) \<noteq> Some (d_reason error_boundary_crash)
   \<and> \<not> crashTriggered (init ''s1'' 0)
   \<and> lastDOMCrashReason (checkForDOMCrash (sample_env 1) error_boundary_doc (init ''s1'' 0))
       = Some (d_reason error_boundary_crash)
   \<and> (\<exists>c. dom_event (sample_env 1) error_boundary_crash (init ''s1'' 0) c
          \<and> posted (checkForDOMCrash (sample_env 1) error_boundary_doc (init ''s1'' 0))
              = posted (init ''s1'' 0) @
                  [\<lparr>p_source = ''L2_AGENT_MAIN_WORLD'', p_type = ''crash_detected'',
                    p_data = PCrash c, p_sessionId = SESSION_ID (init ''s1'' 0),
                    p_pageUrl = href (sample_env 1)\<rparr>])
   \<and> checkForDOMCrash (sample_env 2) error_boundary_doc
         (checkForDOMCrash (sample_env 1) error_boundary_doc (init ''s1'' 0))
       = checkForDOMCrash (sample_env 1) error_boundary_doc (init ''s1'' 0)"
proof -
  have i: "lastDOMCrashReason (init ''s1'' 0) \<noteq> Some (d_reason error_boundary_crash)"
    "\<not> crashTriggered (init ''s1'' 0)"
    by (simp_all add: init_def)
  from dom_check_emits_on_new_reason[where doc = "\<lambda>s. QNull" and ev = "sample_env 1"
         and st = "init ''s1'' 0"]
       dom_check_emits_on_new_reason[where doc = error_boundary_doc
         and crash = error_boundary_crash and ev = "sample_env 1" and st = "init ''s1'' 0"]
       detect_error_boundary detect_nothing i
  show ?thesis
    by simp
qed

text \<open>
  The error boundary is first seen while the error-based detector is latched, so the
  check remembers the reason and posts nothing. After the cooldown the latch is clear and
  no DOM event has ever been posted, yet the next check of the same document posts
  nothing: the only event of the run is the error-based one.
\<close>

theorem dom_reason_seen_while_latched_is_never_reported:
  "detectDOMCrash error_boundary_doc = Some error_boundary_crash
   \<and> lastReportedReason after_cooldown = None
   \<and> \<not> crashTriggered after_cooldown
   \<and> posted (checkForDOMCrash (sample_env 10100) error_boundary_doc after_cooldown)
       = posted after_cooldown
   \<and> map c_detectionMethod (crashEvents after_cooldown) = [''error_based'']"
proof -
  have s: "lastDOMCrashReason after_cooldown = Some (d_reason error_boundary_crash)"
    "\<not> crashTriggered after_cooldown"
    "map c_detectionMethod (crashEvents after_cooldown) = [''error_based'']"
    "lastReportedReason after_cooldown = None"
    by (simp_all add: lastReportedReason_def after_cooldown_def seen_while_latched_def runTimers_def cooldownReset_def
          checkForDOMCrash_def detect_error_boundary checkForErrorBasedCrash_def
          triggerCrashFromError_def isCriticalError_def CRASH_ERROR_TYPES_def Let_def
          sample_entry_def sample_env_def init_def sendToContentScript_def crashEvents_def
          is_crash_def error_boundary_crash_def)
  have "checkForDOMCrash (sample_env 10100) error_boundary_doc after_cooldown = after_cooldown"
    using detect_error_boundary s(1) by (rule dom_check_same)
  then show ?thesis
    using s detect_error_boundary by simp
qed

section \<open>Properties of the buffers and of the interception\<close>

lemma push_capped_length: "length xs \<le> cap \<Longrightarrow> length (push_capped cap x xs) \<le> cap"
  by (auto simp: push_capped_def Let_def)

lemma push_capped_appends: "0 < cap \<Longrightarrow> \<exists>ys. push_capped cap x xs = ys @ [x]"
proof (cases "length (xs @ [x]) > cap")
  case True
  assume "0 < cap"
  with True obtain y ys where "xs = y # ys"
    by (cases xs) auto
  then show ?thesis
    using True by (simp add: push_capped_def)
next
  case False
  then show ?thesis
    by (simp add: push_capped_def)
qed

lemma push_capped_slice: "push_capped cap x (slice_last cap xs) = slice_last cap (xs @ [x])"
proof (cases "length xs < cap")
  case True
  then show ?thesis
    by (simp add: push_capped_def slice_last_def)
next
  case False
  define n where "n = length xs - cap"
  have len: "length (drop n xs @ [x]) > cap"
    using False by (simp add: n_def)
  have n': "Suc (length xs) - cap = Suc n"
    using False by (simp add: n_def)
  have "tl (drop n xs @ [x]) = drop (Suc n) (xs @ [x])"
  proof (cases "cap = 0")
    case True
    then show ?thesis by (simp add: n_def)
  next
    case False
    with \<open>\<not> length xs < cap\<close> have lt: "n < length xs"
      by (simp add: n_def)
    then have "drop n xs \<noteq> []" by simp
    then have "tl (drop n xs @ [x]) = tl (drop n xs) @ [x]"
      by (cases "drop n xs") simp_all
    also have "\<dots> = drop (Suc n) xs @ [x]"
      by (simp add: drop_Suc tl_drop)
    also have "\<dots> = drop (Suc n) (xs @ [x])"
      using lt by simp
    finally show ?thesis .
  qed
  then show ?thesis
    using len n' by (simp add: push_capped_def slice_last_def n_def[symmetric])
qed

lemma capped_buffer_holds_last:
  "foldl (\<lambda>buf x. push_capped cap x buf) [] xs = slice_last cap xs"
proof (induction xs rule: rev_induct)
  case Nil
  then show ?case by (simp add: slice_last_def)
next
  case (snoc x xs)
  then show ?case by (simp add: push_capped_slice)
qed

lemma console_assert_length:
  "\<not> truthy condition \<Longrightarrow>
   length (le_console (state_of (console_assert h ev condition [] st)))
     = Suc (length (le_console st))"
  by (simp add: console_assert_def Let_def sendToContentScript_def)

lemma failed_assert_grows:
  "length (le_console ((failed_assert ^^ n) st)) = length (le_console st) + n"
  by (induction n) (simp_all add: failed_assert_def console_assert_length)

text \<open>
  C4 at a failing input. The capped pushes keep a buffer within its capacity and leave
  it holding the last \<open>cap\<close> elements pushed (\<open>push_capped_length\<close>,
  \<open>capped_buffer_holds_last\<close>), and the \<^verbatim>\<open>console.error\<close> and \<^verbatim>\<open>console.warn\<close>
  overrides use them. The \<^verbatim>\<open>console.assert\<close> override pushes without shifting: after
  101 failed assertions on a fresh page the console buffer, of capacity 100, holds 101
  entries.
\<close>

theorem console_assert_exceeds_console_capacity:
  "length (le_console ((failed_assert ^^ 101) (init ''s1'' 0))) = 101"
  by (simp add: failed_assert_grows init_def)

lemma console_warn_capped:
  "length (le_console st) \<le> 100 \<Longrightarrow>
   length (le_console (state_of (console_warn h ev args st))) \<le> 100"
  by (auto simp: console_warn_def Let_def sendToContentScript_def push_capped_length
           split: sum.splits)

lemma check_keeps_buffers:
  "le_console (state_of (checkForErrorBasedCrash h ev e st)) = le_console st"
  by (simp add: checkForErrorBasedCrash_def triggerCrashFromError_def Let_def
                sendToContentScript_def split: sum.splits)

lemma console_error_capped:
  "length (le_console st) \<le> 100 \<Longrightarrow>
   length (le_console (state_of (console_error h ev args st))) \<le> 100"
proof -
  assume l: "length (le_console st) \<le> 100"
  have k: "le_console (state_of (case c of Threw x s \<Rightarrow> Threw x s
             | Done s \<Rightarrow> Done (s\<lparr>native_error := n s\<rparr>))) = le_console (state_of c)" for c n
    by (cases c) simp_all
  show ?thesis
    using l
    by (simp add: console_error_def Let_def k check_keeps_buffers sendToContentScript_def
                  push_capped_length split: sum.splits)
qed

lemma record_page_entry_capped:
  "length (le_page st) \<le> 50 \<Longrightarrow>
   length (le_page (state_of (record_page_entry h ev ty e st))) \<le> 50"
  by (simp add: record_page_entry_def checkForErrorBasedCrash_def triggerCrashFromError_def
                Let_def sendToContentScript_def push_capped_length split: sum.splits)

lemma console_error_forwards:
  "console_error h ev args st = Done st' \<Longrightarrow> native_error st' = native_error st @ [args]"
  by (auto simp: console_error_def Let_def checkForErrorBasedCrash_def
                 triggerCrashFromError_def sendToContentScript_def
           split: sum.splits completion.splits if_splits)

text \<open>
  C10 at a failing input. When the override returns, it has forwarded exactly its
  arguments (\<open>console_error_forwards\<close>). For \<^verbatim>\<open>console.error(Object.create(null))\<close> it
  does not return: the string coercion in \<^verbatim>\<open>extractErrorInfo\<close> throws, the exception
  reaches the page, and the saved \<^verbatim>\<open>console.error\<close> is never called.
\<close>

theorem console_error_throws_before_forwarding:
  "console_error (\<lambda>a. null_prototype_object) (sample_env 0) [JRef 0] (init ''s1'' 0)
     = Threw TypeError (init ''s1'' 0)
   \<and> native_error (init ''s1'' 0) = []"
  by (simp add: console_error_def extractErrorInfo.simps null_prototype_object_def
                plain_object_def init_def)


lemma record_api_request_appends:
  "\<exists>ys. le_apiRequests (record_api_request ev e st) = ys @ [e]"
  using push_capped_appends[of 200 e "le_apiRequests st"]
  by (simp add: record_api_request_def sendToContentScript_def)

lemma record_api_error_appends:
  "\<exists>ys d. le_api (record_api_error ev e st) = ys @ [e\<lparr>n_errorDetails := d\<rparr>]
          \<and> le_apiRequests (record_api_error ev e st) = le_apiRequests st"
proof -
  obtain d where
    "le_api (record_api_error ev e st) = push_capped 100 (e\<lparr>n_errorDetails := d\<rparr>) (le_api st)"
    by (simp add: record_api_error_def Let_def sendToContentScript_def)
  moreover obtain ys where "push_capped 100 (e\<lparr>n_errorDetails := d\<rparr>) (le_api st)
                            = ys @ [e\<lparr>n_errorDetails := d\<rparr>]"
    using push_capped_appends[of 100 "e\<lparr>n_errorDetails := d\<rparr>" "le_api st"] by auto
  moreover have "le_apiRequests (record_api_error ev e st) = le_apiRequests st"
    by (simp add: record_api_error_def Let_def sendToContentScript_def)
  ultimately show ?thesis
    by auto
qed

lemma xhr_loadend_both:
  assumes "xhr_status x \<ge> 400"
  shows "\<exists>ys zs d. le_apiRequests (xhr_loadend ev r x st) = ys @ [xhr_entry ev r x]
            \<and> le_api (xhr_loadend ev r x st) = zs @ [(xhr_entry ev r x)\<lparr>n_errorDetails := d\<rparr>]"
proof -
  have err: "n_isError (xhr_entry ev r x)"
    using assms by (simp add: xhr_entry_def net_base_def)
  obtain ys where ys: "le_apiRequests (record_api_request ev (xhr_entry ev r x) st)
                       = ys @ [xhr_entry ev r x]"
    using record_api_request_appends by blast
  obtain zs d where
    "le_api (record_api_error ev (xhr_entry ev r x) (record_api_request ev (xhr_entry ev r x) st))
       = zs @ [(xhr_entry ev r x)\<lparr>n_errorDetails := d\<rparr>]"
    "le_apiRequests (record_api_error ev (xhr_entry ev r x)
                      (record_api_request ev (xhr_entry ev r x) st))
       = le_apiRequests (record_api_request ev (xhr_entry ev r x) st)"
    using record_api_error_appends by blast
  then show ?thesis
    using err ys
    by (intro exI[of _ ys] exI[of _ zs] exI[of _ d]) (simp add: xhr_loadend_def Let_def)
qed

lemma fetch_both:
  assumes "r_status resp \<ge> 400"
  shows "\<exists>ys zs d st'. window_fetch h ev q (Resolved resp) st = (Returns resp, st')
            \<and> le_apiRequests st' = ys @ [fetch_entry ev q resp]
            \<and> le_api st' = zs @ [(fetch_entry ev q resp)\<lparr>n_errorDetails := d\<rparr>]"
proof -
  have nok: "\<not> response_ok resp"
    using assms by (simp add: response_ok_def)
  obtain ys where ys: "le_apiRequests (record_api_request ev (fetch_entry ev q resp) st)
                       = ys @ [fetch_entry ev q resp]"
    using record_api_request_appends by blast
  obtain zs d where
    "le_api (record_api_error ev (fetch_entry ev q resp)
               (record_api_request ev (fetch_entry ev q resp) st))
       = zs @ [(fetch_entry ev q resp)\<lparr>n_errorDetails := d\<rparr>]"
    "le_apiRequests (record_api_error ev (fetch_entry ev q resp)
                      (record_api_request ev (fetch_entry ev q resp) st))
       = le_apiRequests (record_api_request ev (fetch_entry ev q resp) st)"
    using record_api_error_appends by blast
  then show ?thesis
    using nok ys
    by (intro exI[of _ ys] exI[of _ zs] exI[of _ d]) (simp add: window_fetch_def Let_def)
qed

text \<open>
  C8, as the code has it. An XHR entry is flagged as an error exactly when its status is
  0 or at least 400. A fetch entry is flagged exactly when \<^verbatim>\<open>response.ok\<close> is false,
  that is when its status is outside 200 to 299. The entries of the failure paths have
  status 0 and are flagged. A completed request with a status of at least 400, by XHR or
  by fetch, is appended to the apiRequests buffer and, with its error details, to the api
  buffer.
\<close>

theorem network_entries_error_flag:
  "n_isError (xhr_entry ev r x) = (xhr_status x = 0 \<or> xhr_status x \<ge> 400)
   \<and> n_isError (fetch_entry ev q resp) = (r_status resp < 200 \<or> r_status resp > 299)
   \<and> (\<exists>e. le_api (xhr_error ev r st) = le_api st @ [e] \<and> n_status e = 0 \<and> n_isError e)
   \<and> (\<exists>e. le_api (xhr_timeout ev r st) = le_api st @ [e] \<and> n_status e = 0 \<and> n_isError e)
   \<and> (err \<noteq> JNull \<and> err \<noteq> JUndefined \<longrightarrow>
        (\<exists>e. le_api (snd (window_fetch h ev q (Rejected err) st)) = le_api st @ [e]
             \<and> n_status e = 0 \<and> n_isError e))
   \<and> (xhr_status x \<ge> 400 \<longrightarrow>
        (\<exists>ys zs d. le_apiRequests (xhr_loadend ev r x st) = ys @ [xhr_entry ev r x]
            \<and> le_api (xhr_loadend ev r x st) = zs @ [(xhr_entry ev r x)\<lparr>n_errorDetails := d\<rparr>]))
   \<and> (r_status resp \<ge> 400 \<longrightarrow>
        (\<exists>ys zs d st'. window_fetch h ev q (Resolved resp) st = (Returns resp, st')
            \<and> le_apiRequests st' = ys @ [fetch_entry ev q resp]
            \<and> le_api st' = zs @ [(fetch_entry ev q resp)\<lparr>n_errorDetails := d\<rparr>]))"
proof (intro conjI impI)
  show "n_isError (xhr_entry ev r x) = (xhr_status x = 0 \<or> xhr_status x \<ge> 400)"
    by (simp add: xhr_entry_def net_base_def)
  show "n_isError (fetch_entry ev q resp) = (r_status resp < 200 \<or> r_status resp > 299)"
    by (auto simp: fetch_entry_def net_base_def response_ok_def)
  show "\<exists>e. le_api (xhr_error ev r st) = le_api st @ [e] \<and> n_status e = 0 \<and> n_isError e"
    by (simp add: xhr_error_def xhr_failure_def net_base_def sendToContentScript_def Let_def)
  show "\<exists>e. le_api (xhr_timeout ev r st) = le_api st @ [e] \<and> n_status e = 0 \<and> n_isError e"
    by (simp add: xhr_timeout_def xhr_failure_def net_base_def sendToContentScript_def Let_def)
next
  assume "err \<noteq> JNull \<and> err \<noteq> JUndefined"
  then show "\<exists>e. le_api (snd (window_fetch h ev q (Rejected err) st)) = le_api st @ [e]
             \<and> n_status e = 0 \<and> n_isError e"
    by (simp add: window_fetch_def net_base_def sendToContentScript_def Let_def
             split: sum.splits)
next
  assume "xhr_status x \<ge> 400"
  then show "\<exists>ys zs d. le_apiRequests (xhr_loadend ev r x st) = ys @ [xhr_entry ev r x]
            \<and> le_api (xhr_loadend ev r x st) = zs @ [(xhr_entry ev r x)\<lparr>n_errorDetails := d\<rparr>]"
    by (rule xhr_loadend_both)
next
  assume "r_status resp \<ge> 400"
  then show "\<exists>ys zs d st'. window_fetch h ev q (Resolved resp) st = (Returns resp, st')
            \<and> le_apiRequests st' = ys @ [fetch_entry ev q resp]
            \<and> le_api st' = zs @ [(fetch_entry ev q resp)\<lparr>n_errorDetails := d\<rparr>]"
    by (rule fetch_both)
qed

text \<open>
  A fetch that resolves with status 304 is recorded with \<open>n_isError\<close> true, although
  its status is neither 0 nor at least 400.
\<close>

theorem fetch_not_modified_is_flagged:
  "n_isError (fetch_entry (sample_env 5) sample_request (sample_response 304 ''Not Modified''))
   \<and> n_status (fetch_entry (sample_env 5) sample_request (sample_response 304 ''Not Modified''))
       = 304
   \<and> \<not> ((304::nat) = 0 \<or> (304::nat) \<ge> 400)"
  by (simp add: fetch_entry_def net_base_def response_ok_def sample_response_def)


theorem network_entries_error_flag_witness:
  "(JRef 0 \<noteq> JNull \<and> JRef 0 \<noteq> JUndefined
     \<and> (\<exists>e. le_api (snd (window_fetch self_caused (sample_env 5) sample_request
                           (Rejected (JRef 0)) (init ''s1'' 0)))
               = le_api (init ''s1'' 0) @ [e] \<and> n_status e = 0 \<and> n_isError e))
   \<and> (xhr_status (sample_xhr_state 503) \<ge> 400
     \<and> (\<exists>ys zs d. le_apiRequests (xhr_loadend (sample_env 5) sample_xhr_req
                                    (sample_xhr_state 503) (init ''s1'' 0))
                     = ys @ [xhr_entry (sample_env 5) sample_xhr_req (sample_xhr_state 503)]
            \<and> le_api (xhr_loadend (sample_env 5) sample_xhr_req (sample_xhr_state 503)
                         (init ''s1'' 0))
                = zs @ [(xhr_entry (sample_env 5) sample_xhr_req (sample_xhr_state 503))
                          \<lparr>n_errorDetails := d\<rparr>]))
   \<and> (r_status (sample_response 503 ''Service Unavailable'') \<ge> 400
     \<and> (\<exists>ys zs d st'. window_fetch self_caused (sample_env 5) sample_request
                           (Resolved (sample_response 503 ''Service Unavailable''))
                           (init ''s1'' 0)
                         = (Returns (sample_response 503 ''Service Unavailable''), st')
            \<and> le_apiRequests st'
                = ys @ [fetch_entry (sample_env 5) sample_request
                          (sample_response 503 ''Service Unavailable'')]
            \<and> le_api st'
                = zs @ [(fetch_entry (sample_env 5) sample_request
                           (sample_response 503 ''Service Unavailable''))
                          \<lparr>n_errorDetails := d\<rparr>]))"
proof -
  have a: "JRef 0 \<noteq> JNull \<and> JRef 0 \<noteq> JUndefined"
    by simp
  have b: "xhr_status (sample_xhr_state 503) \<ge> 400"
    by (simp add: sample_xhr_state_def)
  have c: "r_status (sample_response 503 ''Service Unavailable'') \<ge> 400"
    by (simp add: sample_response_def)
  from network_entries_error_flag[where err = "JRef 0" and h = self_caused
         and ev = "sample_env 5" and q = sample_request and st = "init ''s1'' 0"
         and x = "sample_xhr_state 503" and r = sample_xhr_req
         and resp = "sample_response 503 ''Service Unavailable''"] a b c
  show ?thesis
    by blast
qed

section \<open>Properties of the merge\<close>

lemma merge_each_prefix: "\<exists>ys. merge_each same errs t = t @ ys \<and> appended_new same t ys"
proof (induction errs arbitrary: t)
  case Nil
  then show ?case by (simp add: appended_new_def)
next
  case (Cons err errs)
  show ?case
  proof (cases "find (\<lambda>e. same e err) t = None")
    case True
    from Cons.IH[of "t @ [err]"] obtain ys where
      ys: "merge_each same errs (t @ [err]) = (t @ [err]) @ ys"
          "appended_new same (t @ [err]) ys"
      by blast
    have "appended_new same t (err # ys)"
      using True ys(2)
      by (auto simp: appended_new_def find_None_iff list_all_iff list_ex_iff)
    then show ?thesis
      using True ys(1) by (intro exI[of _ "err # ys"]) simp
  next
    case False
    then have "merge_each same (err # errs) t = merge_each same errs t"
      by (simp only: merge_each.simps if_False)
    then show ?thesis
      using Cons.IH[of t] by simp
  qed
qed

lemma merge_each_covers:
  assumes refl: "\<And>e. same e e"
  shows "\<forall>err\<in>set errs. \<exists>e\<in>set (merge_each same errs t). same e err"
proof (induction errs arbitrary: t)
  case Nil
  then show ?case by simp
next
  case (Cons err errs)
  let ?t = "if find (\<lambda>e. same e err) t = None then t @ [err] else t"
  obtain ys where ys: "merge_each same errs ?t = ?t @ ys"
    using merge_each_prefix by blast
  have "\<exists>e\<in>set ?t. same e err"
    using refl by (auto simp: find_None_iff)
  then have "\<exists>e\<in>set (merge_each same (err # errs) t). same e err"
    using ys by auto
  then show ?case
    using Cons.IH[of ?t] by simp
qed

lemma merge_each_nothing_new:
  "\<forall>err\<in>set errs. \<exists>e\<in>set t. same e err \<Longrightarrow> merge_each same errs t = t"
  by (induction errs arbitrary: t) (auto simp: find_None_iff)

lemma merge_each_idem:
  assumes "\<And>e. same e e"
  shows "merge_each same errs (merge_each same errs t) = merge_each same errs t"
  using merge_each_covers[of same errs t, OF assms] by (rule merge_each_nothing_new)

lemma merge_each_opt_or_empty:
  "or_empty (merge_each_opt same errs t) = merge_each same errs (or_empty t)"
  by (induction errs arbitrary: t) (simp_all add: or_empty_def)

lemma merge_each_opt_nothing_new:
  "\<forall>err\<in>set errs. \<exists>e\<in>set (or_empty t). same e err \<Longrightarrow> merge_each_opt same errs t = t"
  by (induction errs arbitrary: t) (auto simp: find_None_iff)

lemma merge_each_opt_idem:
  assumes "\<And>e. same e e"
  shows "merge_each_opt same errs (merge_each_opt same errs t) = merge_each_opt same errs t"
proof (rule merge_each_opt_nothing_new)
  show "\<forall>err\<in>set errs. \<exists>e\<in>set (or_empty (merge_each_opt same errs t)). same e err"
    using merge_each_covers[of same errs "or_empty t", OF assms]
    by (simp add: merge_each_opt_or_empty)
qed

lemma mergePageData_fields:
  "consoleErrors (mergePageData pd d)
     = merge_each same_console (or_empty (pd_consoleErrors pd)) (consoleErrors d)"
  "pageErrors (mergePageData pd d)
     = merge_each_opt same_page (or_empty (pd_pageErrors pd)) (pageErrors d)"
  "apiErrors (mergePageData pd d)
     = merge_each same_api (or_empty (pd_apiErrors pd)) (apiErrors d)"
  "crashes (mergePageData pd d)
     = merge_each same_crash (or_empty (pd_crashes pd)) (crashes d)"
  by (simp_all add: mergePageData_def Let_def or_empty_def split: option.splits)

text \<open>
  C5. For each category the merged array is the stored array followed by appended
  elements, none of which has the key of a stored element (console: timestamp and
  message; page: timestamp; api: timestamp and url; crash: timestamp); and merging the
  same page data a second time changes nothing.
\<close>

theorem mergePageData_appends_and_is_idempotent:
  "(\<exists>ys. consoleErrors (mergePageData pd d) = consoleErrors d @ ys
         \<and> appended_new same_console (consoleErrors d) ys)
   \<and> (\<exists>ys. or_empty (pageErrors (mergePageData pd d)) = or_empty (pageErrors d) @ ys
         \<and> appended_new same_page (or_empty (pageErrors d)) ys)
   \<and> (\<exists>ys. apiErrors (mergePageData pd d) = apiErrors d @ ys
         \<and> appended_new same_api (apiErrors d) ys)
   \<and> (\<exists>ys. crashes (mergePageData pd d) = crashes d @ ys
         \<and> appended_new same_crash (crashes d) ys)
   \<and> mergePageData pd (mergePageData pd d) = mergePageData pd d"
proof (intro conjI)
  show "\<exists>ys. consoleErrors (mergePageData pd d) = consoleErrors d @ ys
         \<and> appended_new same_console (consoleErrors d) ys"
    by (simp add: mergePageData_fields merge_each_prefix)
  show "\<exists>ys. or_empty (pageErrors (mergePageData pd d)) = or_empty (pageErrors d) @ ys
         \<and> appended_new same_page (or_empty (pageErrors d)) ys"
    by (simp add: mergePageData_fields merge_each_opt_or_empty merge_each_prefix)
  show "\<exists>ys. apiErrors (mergePageData pd d) = apiErrors d @ ys
         \<and> appended_new same_api (apiErrors d) ys"
    by (simp add: mergePageData_fields merge_each_prefix)
  show "\<exists>ys. crashes (mergePageData pd d) = crashes d @ ys
         \<and> appended_new same_crash (crashes d) ys"
    by (simp add: mergePageData_fields merge_each_prefix)
  have "consoleErrors (mergePageData pd (mergePageData pd d)) = consoleErrors (mergePageData pd d)"
    "pageErrors (mergePageData pd (mergePageData pd d)) = pageErrors (mergePageData pd d)"
    "apiErrors (mergePageData pd (mergePageData pd d)) = apiErrors (mergePageData pd d)"
    "crashes (mergePageData pd (mergePageData pd d)) = crashes (mergePageData pd d)"
    by (simp_all add: mergePageData_fields merge_each_idem merge_each_opt_idem
                      same_console_def same_page_def same_api_def same_crash_def)
  then show "mergePageData pd (mergePageData pd d) = mergePageData pd d"
    by (simp add: popup_data.equality)
qed

theorem mergePageData_appends_and_is_idempotent_witness:
  "consoleErrors
     (mergePageData
        \<lparr>pd_crashes = None, pd_apiErrors = None,
         pd_consoleErrors = Some [sample_stored ''t1'' ''a'' ''page copy'',
                                  sample_stored ''t2'' ''b'' ''new'',
                                  sample_stored ''t2'' ''b'' ''again''],
         pd_pageErrors = Some [sample_stored ''t3'' ''c'' ''first'']\<rparr>
        \<lparr>crashes = [], apiErrors = [],
         consoleErrors = [sample_stored ''t1'' ''a'' ''stored copy''], pageErrors = None\<rparr>)
     = [sample_stored ''t1'' ''a'' ''stored copy''] @ [sample_stored ''t2'' ''b'' ''new'']
   \<and> mergePageData
        \<lparr>pd_crashes = None, pd_apiErrors = None,
         pd_consoleErrors = Some [sample_stored ''t1'' ''a'' ''page copy'',
                                  sample_stored ''t2'' ''b'' ''new'',
                                  sample_stored ''t2'' ''b'' ''again''],
         pd_pageErrors = Some [sample_stored ''t3'' ''c'' ''first'']\<rparr>
        (mergePageData
           \<lparr>pd_crashes = None, pd_apiErrors = None,
            pd_consoleErrors = Some [sample_stored ''t1'' ''a'' ''page copy'',
                                     sample_stored ''t2'' ''b'' ''new'',
                                     sample_stored ''t2'' ''b'' ''again''],
            pd_pageErrors = Some [sample_stored ''t3'' ''c'' ''first'']\<rparr>
           \<lparr>crashes = [], apiErrors = [],
            consoleErrors = [sample_stored ''t1'' ''a'' ''stored copy''], pageErrors = None\<rparr>)
     = mergePageData
        \<lparr>pd_crashes = None, pd_apiErrors = None,
         pd_consoleErrors = Some [sample_stored ''t1'' ''a'' ''page copy'',
                                  sample_stored ''t2'' ''b'' ''new'',
                                  sample_stored ''t2'' ''b'' ''again''],
         pd_pageErrors = Some [sample_stored ''t3'' ''c'' ''first'']\<rparr>
        \<lparr>crashes = [], apiErrors = [],
         consoleErrors = [sample_stored ''t1'' ''a'' ''stored copy''], pageErrors = None\<rparr>"
proof -
  have "consoleErrors
     (mergePageData
        \<lparr>pd_crashes = None, pd_apiErrors = None,
         pd_consoleErrors = Some [sample_stored ''t1'' ''a'' ''page copy'',
                                  sample_stored ''t2'' ''b'' ''new'',
                                  sample_stored ''t2'' ''b'' ''again''],
         pd_pageErrors = Some [sample_stored ''t3'' ''c'' ''first'']\<rparr>
        \<lparr>crashes = [], apiErrors = [],
         consoleErrors = [sample_stored ''t1'' ''a'' ''stored copy''], pageErrors = None\<rparr>)
     = [sample_stored ''t1'' ''a'' ''stored copy''] @ [sample_stored ''t2'' ''b'' ''new'']"
    by (simp add: mergePageData_def Let_def same_console_def sample_stored_def)
  then show ?thesis
    using mergePageData_appends_and_is_idempotent by blast
qed

end
